theory Spec2Isabelle
  imports Complex_Main "HOL-Library.Multiset"
begin

section \<open>Monkey King Evolution: a shallow embedding of mke.py\<close>

text \<open>
  The development follows the two versions of the module that the repository holds:
  \<^verbatim>\<open>niapy/algorithms/basic/mke.py\<close> (the current one) and
  \<^verbatim>\<open>NiaPy/algorithms/basic/mke.py\<close> (the older one; its definitions carry the
  source's camel-case names). Positions are lists of numbers, and numbers are the reals:
  rounding, infinities and NaN of the floating-point arrays are outside the model, apart
  from the initial \<^verbatim>\<open>inf\<close> of the older individual, which is kept as a value of its own.
\<close>

subsection \<open>Errors and vectors\<close>

text \<open>
  The source raises nothing itself; what can fail are the library calls it makes.
  \<^verbatim>\<open>ValueError\<close> stands for numpy's refusal of an empty \<^verbatim>\<open>argmin\<close>/\<^verbatim>\<open>argmax\<close>,
  of arrays whose shapes do not agree and of a sample without replacement larger than the
  population; \<^verbatim>\<open>IndexError\<close> is an index outside an array;
  \<^verbatim>\<open>ZeroDivisionError\<close> is Python's; \<^verbatim>\<open>DimensionMismatch\<close> is the task's refusal of
  a position of the wrong length.
\<close>

datatype error = DimensionMismatch | ValueError | IndexError | ZeroDivisionError

type_synonym vec = "real list"

text \<open>Element-wise array arithmetic on arrays of one shape, and scaling by a number.\<close>

definition vadd :: "vec \<Rightarrow> vec \<Rightarrow> vec" where
  "vadd a b = map2 (+) a b"

definition vsub :: "vec \<Rightarrow> vec \<Rightarrow> vec" where
  "vsub a b = map2 (-) a b"

definition vmul :: "vec \<Rightarrow> vec \<Rightarrow> vec" where
  "vmul a b = map2 (*) a b"

definition smul :: "real \<Rightarrow> vec \<Rightarrow> vec" where
  "smul c a = map ((*) c) a"

text \<open>A failed step ends the computation, as the exception would.\<close>

definition bind_err :: "error + 'a \<Rightarrow> ('a \<Rightarrow> error + 'b) \<Rightarrow> error + 'b" where
  "bind_err m k = (case m of Inl e \<Rightarrow> Inl e | Inr a \<Rightarrow> k a)"

primrec map_err :: "('a \<Rightarrow> error + 'b) \<Rightarrow> 'a list \<Rightarrow> error + 'b list" where
  "map_err h [] = Inr []"
| "map_err h (a # as) =
     bind_err (h a) (\<lambda>b. bind_err (map_err h as) (\<lambda>bs. Inr (b # bs)))"

text \<open>A \<^verbatim>\<open>for\<close> loop over a list, threading the state it changes.\<close>

primrec fold_err :: "('a \<Rightarrow> 's \<Rightarrow> error + 's) \<Rightarrow> 'a list \<Rightarrow> 's \<Rightarrow> error + 's" where
  "fold_err h [] s = Inr s"
| "fold_err h (a # as) s = bind_err (h a s) (fold_err h as)"

text \<open>
  A binary operator on two one-dimensional arrays as numpy applies it: element-wise on
  equal lengths, an array of length one is broadcast, anything else is a shape error.
  Applied row by row it is also the broadcast of a matrix against a vector.
\<close>

definition ew :: "(real \<Rightarrow> real \<Rightarrow> real) \<Rightarrow> vec \<Rightarrow> vec \<Rightarrow> error + vec" where
  "ew op a b =
     (if length a = length b then Inr (map2 op a b)
      else if length a = 1 then Inr (map (op (hd a)) b)
      else if length b = 1 then Inr (map (\<lambda>u. op u (hd b)) a)
      else Inl ValueError)"

text \<open>Indexing an array or a list.\<close>

definition item_at :: "'a list \<Rightarrow> nat \<Rightarrow> error + 'a" where
  "item_at xs i = (if i < length xs then Inr (xs ! i) else Inl IndexError)"

text \<open>Python's \<^verbatim>\<open>int(r)\<close> on a float: truncation towards zero.\<close>

definition py_int :: "real \<Rightarrow> int" where
  "py_int r = (if 0 \<le> r then \<lfloor>r\<rfloor> else \<lceil>r\<rceil>)"

text \<open>
  \<^verbatim>\<open>numpy.argmin\<close> and \<^verbatim>\<open>numpy.argmax\<close>: the first index of the least (greatest)
  entry; an empty array is refused.
\<close>

fun argmin_list :: "real list \<Rightarrow> nat" where
  "argmin_list [] = 0"
| "argmin_list [v] = 0"
| "argmin_list (v # vs) = (let j = argmin_list vs in if v \<le> vs ! j then 0 else Suc j)"

fun argmax_list :: "real list \<Rightarrow> nat" where
  "argmax_list [] = 0"
| "argmax_list [v] = 0"
| "argmax_list (v # vs) = (let j = argmax_list vs in if vs ! j \<le> v then 0 else Suc j)"

definition argmin :: "real list \<Rightarrow> error + nat" where
  "argmin fs = (if fs = [] then Inl ValueError else Inr (argmin_list fs))"

definition argmax :: "real list \<Rightarrow> error + nat" where
  "argmax fs = (if fs = [] then Inl ValueError else Inr (argmax_list fs))"

subsection \<open>The random source\<close>

text \<open>
  The generator is numpy's; the module only calls it. Its operations are taken as a
  parameter: a record of functions on a generator state \<open>'g\<close>, each returning its draw
  and the next state. \<open>random_vec n\<close> is \<^verbatim>\<open>random(n)\<close> (\<^verbatim>\<open>rand(n)\<close> in the older
  module), \<open>random_mat n d\<close> is \<^verbatim>\<open>random((n, d))\<close>, \<open>choice n k\<close> is
  \<^verbatim>\<open>choice(n, k)\<close>, \<open>choice_norep n k\<close> is \<^verbatim>\<open>choice(n, k, replace=False)\<close> and
  \<open>shuffle\<close> is \<^verbatim>\<open>shuffle\<close> on one row.
\<close>

record 'g rng_ops =
  random_vec :: "nat \<Rightarrow> 'g \<Rightarrow> vec \<times> 'g"
  random_mat :: "nat \<Rightarrow> nat \<Rightarrow> 'g \<Rightarrow> vec list \<times> 'g"
  choice :: "nat \<Rightarrow> nat \<Rightarrow> 'g \<Rightarrow> nat list \<times> 'g"
  choice_norep :: "nat \<Rightarrow> nat \<Rightarrow> 'g \<Rightarrow> nat list \<times> 'g"
  shuffle :: "vec \<Rightarrow> 'g \<Rightarrow> vec \<times> 'g"

text \<open>
  What numpy promises of a draw: the requested shape, numbers in \<open>[0, 1)\<close>, indices
  below \<open>n\<close>, no index twice without replacement, and a shuffle that permutes.
\<close>

definition rng_contract :: "'g rng_ops \<Rightarrow> bool" where
  "rng_contract R \<longleftrightarrow>
     (\<forall>n g. length (fst (random_vec R n g)) = n
        \<and> (\<forall>u \<in> set (fst (random_vec R n g)). 0 \<le> u \<and> u < 1))
   \<and> (\<forall>n d g. length (fst (random_mat R n d g)) = n
        \<and> (\<forall>row \<in> set (fst (random_mat R n d g)).
              length row = d \<and> (\<forall>u \<in> set row. 0 \<le> u \<and> u < 1)))
   \<and> (\<forall>n k g. 0 < n \<longrightarrow> length (fst (choice R n k g)) = k
        \<and> (\<forall>i \<in> set (fst (choice R n k g)). i < n))
   \<and> (\<forall>n k g. k \<le> n \<longrightarrow> length (fst (choice_norep R n k g)) = k
        \<and> distinct (fst (choice_norep R n k g))
        \<and> (\<forall>i \<in> set (fst (choice_norep R n k g)). i < n))
   \<and> (\<forall>v g. mset (fst (shuffle R v g)) = mset v)"

text \<open>
  The size checks numpy makes before it draws: a negative size, a sample without
  replacement larger than the population, a draw from an empty population.
\<close>

definition rng_choice :: "'g rng_ops \<Rightarrow> nat \<Rightarrow> int \<Rightarrow> 'g \<Rightarrow> error + (nat list \<times> 'g)" where
  "rng_choice R n k g =
     (if k < 0 \<or> (n = 0 \<and> 0 < k) then Inl ValueError else Inr (choice R n (nat k) g))"

definition rng_choice_norep ::
  "'g rng_ops \<Rightarrow> nat \<Rightarrow> int \<Rightarrow> 'g \<Rightarrow> error + (nat list \<times> 'g)" where
  "rng_choice_norep R n k g =
     (if k < 0 \<or> int n < k then Inl ValueError else Inr (choice_norep R n (nat k) g))"

subsection \<open>The task\<close>

text \<open>
  Modelled from the spec: the \<^verbatim>\<open>Task\<close> class is not among the sources. Section 3 gives
  its attributes (dimension, bound vectors, objective, evaluation budget and counter),
  section 4.1 its operations: \<^verbatim>\<open>evaluate\<close> refuses a position of the wrong length,
  counts the evaluation and calls the objective; \<^verbatim>\<open>repair\<close> clips every out-of-range
  component to the nearest bound; \<^verbatim>\<open>stopping_condition\<close> holds once the budget is
  used. An unbounded budget is \<open>None\<close>.
\<close>

record task =
  dimension :: nat
  lower :: vec
  upper :: vec
  objective :: "vec \<Rightarrow> real"
  max_evals :: "nat option"
  evals :: nat

definition task_eval :: "task \<Rightarrow> vec \<Rightarrow> error + (real \<times> task)" where
  "task_eval t v =
     (if length v \<noteq> dimension t then Inl DimensionMismatch
      else Inr (objective t v, t\<lparr>evals := Suc (evals t)\<rparr>))"

definition clip :: "real \<Rightarrow> real \<Rightarrow> real \<Rightarrow> real" where
  "clip lo hi vi = (if vi > hi then hi else if vi < lo then lo else vi)"

definition clip_vec :: "task \<Rightarrow> vec \<Rightarrow> vec" where
  "clip_vec t v = map (\<lambda>(vi, lo, hi). clip lo hi vi) (zip v (zip (lower t) (upper t)))"

definition task_repair :: "task \<Rightarrow> vec \<Rightarrow> error + vec" where
  "task_repair t v =
     (if length v \<noteq> dimension t then Inl DimensionMismatch else Inr (clip_vec t v))"

definition stopping_condition :: "task \<Rightarrow> bool" where
  "stopping_condition t = (case max_evals t of None \<Rightarrow> False | Some m \<Rightarrow> m \<le> evals t)"

text \<open>
  \<^verbatim>\<open>numpy.apply_along_axis(h, 1, M)\<close>: \<open>h\<close> on every row, first row first; a matrix
  without rows is refused. With \<^verbatim>\<open>task.eval\<close> the rows are evaluated in order and
  each one is counted.
\<close>

definition apply_along_axis :: "(vec \<Rightarrow> error + 'b) \<Rightarrow> vec list \<Rightarrow> error + 'b list" where
  "apply_along_axis h M = (if M = [] then Inl ValueError else map_err h M)"

primrec eval_rows :: "task \<Rightarrow> vec list \<Rightarrow> error + (real list \<times> task)" where
  "eval_rows t [] = Inr ([], t)"
| "eval_rows t (v # vs) =
     bind_err (task_eval t v) (\<lambda>(fv, t').
     bind_err (eval_rows t' vs) (\<lambda>(fs, t''). Inr (fv # fs, t'')))"

definition apply_eval :: "task \<Rightarrow> vec list \<Rightarrow> error + (real list \<times> task)" where
  "apply_eval t M = (if M = [] then Inl ValueError else eval_rows t M)"

subsection \<open>The algorithm's parameters\<close>

text \<open>
  The attributes set by \<^verbatim>\<open>__init__\<close> and \<^verbatim>\<open>set_parameters\<close>; \<open>c_param\<close> and
  \<open>fc\<close> are the source's \<^verbatim>\<open>c\<close> and \<^verbatim>\<open>fc\<close>. The older module calls the five
  \<^verbatim>\<open>NP\<close>, \<^verbatim>\<open>F\<close>, \<^verbatim>\<open>R\<close>, \<^verbatim>\<open>C\<close> and \<^verbatim>\<open>FC\<close>.
\<close>

record params =
  population_size :: nat
  fluctuation_coeff :: real
  population_rate :: real
  c_param :: real
  fc :: real

subsection \<open>The individual\<close>

text \<open>
  \<^verbatim>\<open>class MkeSolution(Individual)\<close>: the position \<^verbatim>\<open>x\<close> and fitness \<^verbatim>\<open>f\<close> of the
  base class (fields \<open>sol_x\<close>, \<open>sol_f\<close> here, since one-letter names would
  capture the variables of every statement), the personal best and the Monkey King flag.
\<close>

record MkeSolution =
  sol_x :: vec
  sol_f :: real
  x_pb :: vec
  f_pb :: real
  monkey_king :: bool

text \<open>
  \<^verbatim>\<open>
  def update_personal_best(self):
      if self.f < self.f_pb:
          self.x_pb, self.f_pb = self.x, self.f
  \<close>
\<close>

definition update_personal_best :: "MkeSolution \<Rightarrow> MkeSolution" where
  "update_personal_best p =
     (if sol_f p < f_pb p then p\<lparr>x_pb := sol_x p, f_pb := sol_f p\<rparr> else p)"


text \<open>
  Modelled from the spec: \<^verbatim>\<open>Individual.evaluate\<close> of the base class is not among the
  sources. Section 4.4: the moved position is ``repaired to bounds, then re-evaluated''.
\<close>

definition evaluate :: "MkeSolution \<Rightarrow> task \<Rightarrow> error + (MkeSolution \<times> task)" where
  "evaluate p t =
     bind_err (task_repair t (sol_x p)) (\<lambda>v.
     bind_err (task_eval t v) (\<lambda>(fv, t').
     Inr (p\<lparr>sol_x := v, sol_f := fv\<rparr>, t')))"

subsection \<open>Version 1\<close>

text \<open>
  \<^verbatim>\<open>
  def move_p(self, x, x_pb, x_b, task):
      return x_pb + self.fluctuation_coeff * self.random(task.dimension) * (x_b - x)
  \<close>
\<close>

definition move_p ::
  "'g rng_ops \<Rightarrow> params \<Rightarrow> vec \<Rightarrow> vec \<Rightarrow> vec \<Rightarrow> task \<Rightarrow> 'g \<Rightarrow> error + (vec \<times> 'g)" where
  "move_p R P xv xpb xb t g =
     (let (r, g') = random_vec R (dimension t) g in
      bind_err (ew (-) xb xv) (\<lambda>d.
      bind_err (ew (*) (smul (fluctuation_coeff P) r) d) (\<lambda>m.
      bind_err (ew (+) xpb m) (\<lambda>y. Inr (y, g')))))"

text \<open>
  \<^verbatim>\<open>
  def move_mk(self, x, task):
      return x + self.fc * self.random((int(self.c * task.dimension), task.dimension)) * x
  \<close>
  A negative number of rows is refused by the generator.
\<close>

definition move_mk ::
  "'g rng_ops \<Rightarrow> params \<Rightarrow> vec \<Rightarrow> task \<Rightarrow> 'g \<Rightarrow> error + (vec list \<times> 'g)" where
  "move_mk R P xv t g =
     (let n = py_int (c_param P * real (dimension t)) in
      if n < 0 then Inl ValueError
      else
        let (U, g') = random_mat R (nat n) (dimension t) g in
        bind_err
          (map_err (\<lambda>u. bind_err (ew (*) (smul (fc P) u) xv) (\<lambda>m. ew (+) xv m)) U)
          (\<lambda>A. Inr (A, g')))"

text \<open>
  \<^verbatim>\<open>
  def move_particle(self, p, p_b, task):
      p.x = self.move_p(p.x, p.x_pb, p_b, task)
      p.evaluate(task, rng=self.rng)
  \<close>
\<close>

definition move_particle ::
  "'g rng_ops \<Rightarrow> params \<Rightarrow> MkeSolution \<Rightarrow> vec \<Rightarrow> task \<Rightarrow> 'g
     \<Rightarrow> error + (MkeSolution \<times> task \<times> 'g)" where
  "move_particle R P p p_b t g =
     bind_err (move_p R P (sol_x p) (x_pb p) p_b t g) (\<lambda>(y, g').
     bind_err (evaluate (p\<lparr>sol_x := y\<rparr>) t) (\<lambda>(p', t').
     Inr (p', t', g')))"

text \<open>
  \<^verbatim>\<open>
  def move_monkey_king_particle(self, p, task):
      p.monkey_king = False
      a = np.apply_along_axis(task.repair, 1, self.move_mk(p.x, task), self.rng)
      a_f = np.apply_along_axis(task.eval, 1, a)
      ib = np.argmin(a_f)
      p.x, p.f = a[ib], a_f[ib]
  \<close>
\<close>

definition move_monkey_king_particle ::
  "'g rng_ops \<Rightarrow> params \<Rightarrow> MkeSolution \<Rightarrow> task \<Rightarrow> 'g
     \<Rightarrow> error + (MkeSolution \<times> task \<times> 'g)" where
  "move_monkey_king_particle R P p t g =
     bind_err (move_mk R P (sol_x p) t g) (\<lambda>(M, g').
     bind_err (apply_along_axis (task_repair t) M) (\<lambda>a.
     bind_err (apply_eval t a) (\<lambda>(a_f, t').
     bind_err (argmin a_f) (\<lambda>ib.
     Inr (p\<lparr>monkey_king := False, sol_x := a ! ib, sol_f := a_f ! ib\<rparr>, t', g')))))"

subsection \<open>Version 2\<close>

text \<open>
  \<^verbatim>\<open>
  def move_mk(self, x, task, dx=None):
      return x - self.fc * dx
  \<close>
\<close>

definition move_mk_v2 :: "params \<Rightarrow> vec \<Rightarrow> vec \<Rightarrow> error + vec" where
  "move_mk_v2 P xv dx = ew (-) xv (smul (fc P) dx)"

text \<open>
  One pass through the body of the loop of \<^verbatim>\<open>move_monkey_king_particle\<close>, on the
  loop's variables \<^verbatim>\<open>p_b\<close>, \<^verbatim>\<open>p_f\<close>, the task and the generator:
  \<^verbatim>\<open>
      r = self.rng.choice(self.population_size, 2, replace=False)
      a = task.repair(self.move_mk(p.x, task, pop[r[0]].x - pop[r[1]].x), self.rng)
      a_f = task.eval(a)
      if a_f < p_f:
          p_b, p_f = a, a_f
  \<close>
  \<open>xv\<close> is \<^verbatim>\<open>p.x\<close>, which the loop does not assign.
\<close>

definition mk_trial_v2 ::
  "'g rng_ops \<Rightarrow> params \<Rightarrow> MkeSolution list \<Rightarrow> vec \<Rightarrow> vec \<times> real \<times> task \<times> 'g
     \<Rightarrow> error + (vec \<times> real \<times> task \<times> 'g)" where
  "mk_trial_v2 R P pop xv s =
     (case s of (p_b, p_f, t, g) \<Rightarrow>
      bind_err (rng_choice_norep R (population_size P) 2 g) (\<lambda>(r, g').
      bind_err (item_at r 0) (\<lambda>r0.
      bind_err (item_at r 1) (\<lambda>r1.
      bind_err (item_at pop r0) (\<lambda>pj.
      bind_err (item_at pop r1) (\<lambda>pk.
      bind_err (ew (-) (sol_x pj) (sol_x pk)) (\<lambda>dx.
      bind_err (move_mk_v2 P xv dx) (\<lambda>y.
      bind_err (task_repair t y) (\<lambda>a.
      bind_err (task_eval t a) (\<lambda>(a_f, t').
      Inr (if a_f < p_f then (a, a_f, t', g') else (p_b, p_f, t', g'))))))))))))"

text \<open>
  \<^verbatim>\<open>
  def move_monkey_king_particle(self, p, task, pop=None):
      p.monkey_king = False
      p_b, p_f = p.x, p.f
      for _i in range(int(self.c * self.population_size)):
          ...
      p.x, p.f = p_b, p_f
  \<close>
\<close>

definition move_monkey_king_particle_v2 ::
  "'g rng_ops \<Rightarrow> params \<Rightarrow> MkeSolution \<Rightarrow> MkeSolution list \<Rightarrow> task \<Rightarrow> 'g
     \<Rightarrow> error + (MkeSolution \<times> task \<times> 'g)" where
  "move_monkey_king_particle_v2 R P p pop t g =
     bind_err
       (fold_err (\<lambda>_. mk_trial_v2 R P pop (sol_x p))
          [0..<nat (py_int (c_param P * real (population_size P)))]
          (sol_x p, sol_f p, t, g))
       (\<lambda>(p_b, p_f, t', g').
          Inr (p\<lparr>monkey_king := False, sol_x := p_b, sol_f := p_f\<rparr>, t', g'))"

subsection \<open>Moving and flagging the population\<close>

text \<open>
  \<^verbatim>\<open>
  def move_population(self, pop, xb, task):
      for p in pop:
          if p.monkey_king:
              self.move_monkey_king_particle(p, task)       # version 2: (p, task, pop)
          else:
              self.move_particle(p, xb, task)
          p.update_personal_best()
      return pop
  \<close>
  Version 2 overrides \<^verbatim>\<open>move_monkey_king_particle\<close> and hands it the population as it
  stands, earlier individuals already moved. The individuals are objects held by the
  array; the model writes each moved one back at its index.
\<close>

datatype variant = MKEv1 | MKEv2

definition move_one ::
  "variant \<Rightarrow> 'g rng_ops \<Rightarrow> params \<Rightarrow> vec \<Rightarrow> nat \<Rightarrow> MkeSolution list \<times> task \<times> 'g
     \<Rightarrow> error + (MkeSolution list \<times> task \<times> 'g)" where
  "move_one V R P xb i s =
     (case s of (pop, t, g) \<Rightarrow>
      bind_err (item_at pop i) (\<lambda>p.
      bind_err
        (if monkey_king p then
           (case V of
              MKEv1 \<Rightarrow> move_monkey_king_particle R P p t g
            | MKEv2 \<Rightarrow> move_monkey_king_particle_v2 R P p pop t g)
         else move_particle R P p xb t g)
        (\<lambda>(p', t', g'). Inr (pop[i := update_personal_best p'], t', g'))))"

definition move_population ::
  "variant \<Rightarrow> 'g rng_ops \<Rightarrow> params \<Rightarrow> MkeSolution list \<Rightarrow> vec \<Rightarrow> task \<Rightarrow> 'g
     \<Rightarrow> error + (MkeSolution list \<times> task \<times> 'g)" where
  "move_population V R P pop xb t g = fold_err (move_one V R P xb) [0..<length pop] (pop, t, g)"

text \<open>
  The flagging loop, the same in \<^verbatim>\<open>init_population\<close> and \<^verbatim>\<open>run_iteration\<close>:
  \<^verbatim>\<open>
  for i in self.rng.choice(self.population_size,
                           int(self.population_rate * len(pop)), replace=False):
      pop[i].monkey_king = True
  \<close>
\<close>

definition set_monkey_king :: "nat \<Rightarrow> MkeSolution list \<Rightarrow> error + MkeSolution list" where
  "set_monkey_king i pop =
     (if i < length pop then Inr (pop[i := (pop ! i)\<lparr>monkey_king := True\<rparr>])
      else Inl IndexError)"

definition flag_monkey_kings ::
  "'g rng_ops \<Rightarrow> params \<Rightarrow> MkeSolution list \<Rightarrow> 'g \<Rightarrow> error + (MkeSolution list \<times> 'g)" where
  "flag_monkey_kings R P pop g =
     bind_err
       (rng_choice_norep R (population_size P)
          (py_int (population_rate P * real (length pop))) g)
       (\<lambda>(idx, g'). bind_err (fold_err set_monkey_king idx pop) (\<lambda>pop'. Inr (pop', g')))"




definition get_best ::
  "vec list \<Rightarrow> real list \<Rightarrow> vec \<Rightarrow> real \<Rightarrow> error + (vec \<times> real)" where
  "get_best X X_f best_x best_fitness =
     bind_err (argmin X_f) (\<lambda>ib.
     bind_err (item_at X ib) (\<lambda>xb.
     Inr (if X_f ! ib < best_fitness then (xb, X_f ! ib) else (best_x, best_fitness))))"


text \<open>
  \<^verbatim>\<open>
  def run_iteration(self, task, population, population_fitness, best_x, best_fitness, **params):
      population = self.move_population(population, best_x, task)
      for i in self.rng.choice(...): population[i].monkey_king = True
      population_fitness = np.asarray([m.f for m in population])
      best_x, best_fitness = self.get_best(population, population_fitness, best_x, best_fitness)
      return population, population_fitness, best_x, best_fitness, {}
  \<close>
\<close>

definition run_iteration ::
  "variant \<Rightarrow> 'g rng_ops \<Rightarrow> params \<Rightarrow> task \<Rightarrow> MkeSolution list \<Rightarrow> real list \<Rightarrow> vec \<Rightarrow> real
     \<Rightarrow> 'g \<Rightarrow> error + (MkeSolution list \<times> real list \<times> vec \<times> real \<times> task \<times> 'g)" where
  "run_iteration V R P t population population_fitness best_x best_fitness g =
     bind_err (move_population V R P population best_x t g) (\<lambda>(pop1, t', g1).
     bind_err (flag_monkey_kings R P pop1 g1) (\<lambda>(pop2, g2).
     let population_fitness' = map sol_f pop2 in
     bind_err (get_best (map sol_x pop2) population_fitness' best_x best_fitness)
       (\<lambda>(bx, bf). Inr (pop2, population_fitness', bx, bf, t', g2))))"

subsection \<open>Version 3\<close>

text \<open>
  \<^verbatim>\<open>
  @staticmethod
  def neg(x):
      return 0.0 if x == 1.0 else 1.0
  \<close>
\<close>

definition neg :: "real \<Rightarrow> real" where
  "neg v = (if v = 1 then 0 else 1)"

text \<open>
  The population is a matrix, a list of rows. The first statement of
  \<^verbatim>\<open>run_iteration\<close> repairs the rows of
  \<^verbatim>\<open>
  best_x + self.fc * population[self.rng.choice(len(population), c)]
         - population[self.rng.choice(len(population), c)]
  \<close>
  which Python reads as \<open>(best_x + fc * A) - B\<close>: the product binds tighter than
  the sum and the difference, and these two associate to the left. The first sample is
  drawn and added before the second is drawn. \<open>mat_ew\<close> is a binary operator on two
  matrices: row by row on equal numbers of rows, a matrix of one row is broadcast,
  anything else is a shape error.
\<close>

definition mat_ew ::
  "(real \<Rightarrow> real \<Rightarrow> real) \<Rightarrow> vec list \<Rightarrow> vec list \<Rightarrow> error + vec list" where
  "mat_ew op A B =
     (if length A = length B then map_err (\<lambda>(a, b). ew op a b) (zip A B)
      else if length A = 1 then map_err (\<lambda>b. ew op (hd A) b) B
      else if length B = 1 then map_err (\<lambda>a. ew op a (hd B)) A
      else Inl ValueError)"

definition v3_candidates ::
  "'g rng_ops \<Rightarrow> params \<Rightarrow> vec list \<Rightarrow> vec \<Rightarrow> int \<Rightarrow> 'g \<Rightarrow> error + (vec list \<times> 'g)" where
  "v3_candidates R P population best_x c g =
     bind_err (rng_choice R (length population) c g) (\<lambda>(ia, g1).
     bind_err (map_err (item_at population) ia) (\<lambda>A.
     bind_err (map_err (\<lambda>a. ew (+) best_x (smul (fc P) a)) A) (\<lambda>S.
     bind_err (rng_choice R (length population) c g1) (\<lambda>(ib, g2).
     bind_err (map_err (item_at population) ib) (\<lambda>B.
     bind_err (mat_ew (-) S B) (\<lambda>X. Inr (X, g2)))))))"

text \<open>
  The mask:
  \<^verbatim>\<open>
  m = np.ones((self.population_size, task.dimension))
  for i in range(k):
      m[i * task.dimension:(i + 1) * task.dimension] = np.tril(m[i * task.dimension:(i + 1) * task.dimension])
  for i in range(self.population_size):
      self.rng.shuffle(m[i])
  \<close>
  \<^verbatim>\<open>np.tril\<close> zeroes the entries above the diagonal; a slice is cut off at the end
  of the matrix.
\<close>

definition tril :: "vec list \<Rightarrow> vec list" where
  "tril B =
     map (\<lambda>(i, row). map (\<lambda>(j, v). if j \<le> i then v else 0) (zip [0..<length row] row))
       (zip [0..<length B] B)"

definition tril_block :: "nat \<Rightarrow> nat \<Rightarrow> vec list \<Rightarrow> vec list" where
  "tril_block d i m = take (i * d) m @ tril (take d (drop (i * d) m)) @ drop ((i + 1) * d) m"

definition shuffle_row ::
  "'g rng_ops \<Rightarrow> nat \<Rightarrow> vec list \<times> 'g \<Rightarrow> error + (vec list \<times> 'g)" where
  "shuffle_row R i s =
     (case s of (m, g) \<Rightarrow>
      bind_err (item_at m i) (\<lambda>row.
      let (row', g') = shuffle R row g in Inr (m[i := row'], g')))"

definition mask ::
  "'g rng_ops \<Rightarrow> params \<Rightarrow> task \<Rightarrow> int \<Rightarrow> 'g \<Rightarrow> error + (vec list \<times> 'g)" where
  "mask R P t k g =
     (let m = replicate (population_size P) (replicate (dimension t) 1);
          m' = fold (tril_block (dimension t)) [0..<nat k] m
      in fold_err (shuffle_row R) [0..<population_size P] (m', g))"

text \<open>
  \<^verbatim>\<open>m * population + np.vectorize(self.neg)(m) * best_x\<close>
\<close>

definition recombine :: "vec list \<Rightarrow> vec list \<Rightarrow> vec \<Rightarrow> error + vec list" where
  "recombine m population best_x =
     bind_err (mat_ew (*) m population) (\<lambda>A.
     bind_err (map_err (\<lambda>row. ew (*) (map neg row) best_x) m) (\<lambda>B.
     mat_ew (+) A B))"

text \<open>
  The last statements of \<^verbatim>\<open>run_iteration\<close>:
  \<^verbatim>\<open>
  iw, ib_gb = np.argmax(population_fitness), np.argmin(x_gb_f)
  if x_gb_f[ib_gb] <= population_fitness[iw]:
      population[iw], population_fitness[iw] = x_gb[ib_gb], x_gb_f[ib_gb]
  \<close>
\<close>

definition inject_best ::
  "vec list \<Rightarrow> real list \<Rightarrow> vec list \<Rightarrow> real list \<Rightarrow> error + (vec list \<times> real list)" where
  "inject_best population population_fitness x_gb x_gb_f =
     bind_err (argmax population_fitness) (\<lambda>iw.
     bind_err (argmin x_gb_f) (\<lambda>ib_gb.
     if x_gb_f ! ib_gb \<le> population_fitness ! iw then
       bind_err (item_at x_gb ib_gb) (\<lambda>row.
       if iw < length population
       then Inr (population[iw := row], population_fitness[iw := x_gb_f ! ib_gb])
       else Inl IndexError)
     else Inr (population, population_fitness)))"

text \<open>
  \<^verbatim>\<open>
  def run_iteration(self, task, population, population_fitness, best_x, best_fitness, **params):
      k = params.pop('k')
      c = params.pop('c')
      x_gb = np.apply_along_axis(task.repair, 1, best_x + ... , self.rng)
      x_gb_f = np.apply_along_axis(task.eval, 1, x_gb)
      best_x, best_fitness = self.get_best(x_gb, x_gb_f, best_x, best_fitness)
      m = ...
      population = np.apply_along_axis(task.repair, 1,
                       m * population + np.vectorize(self.neg)(m) * best_x, self.rng)
      population_fitness = np.apply_along_axis(task.eval, 1, population)
      best_x, best_fitness = self.get_best(population, population_fitness, best_x, best_fitness)
      iw, ib_gb = ...
      return population, population_fitness, best_x, best_fitness, {'k': k, 'c': c}
  \<close>
\<close>

definition run_iteration_v3 ::
  "'g rng_ops \<Rightarrow> params \<Rightarrow> task \<Rightarrow> vec list \<Rightarrow> real list \<Rightarrow> vec \<Rightarrow> real \<Rightarrow> int \<Rightarrow> int \<Rightarrow> 'g
     \<Rightarrow> error + (vec list \<times> real list \<times> vec \<times> real \<times> int \<times> int \<times> task \<times> 'g)" where
  "run_iteration_v3 R P t population population_fitness best_x best_fitness k c g =
     bind_err (v3_candidates R P population best_x c g) (\<lambda>(X, g1).
     bind_err (apply_along_axis (task_repair t) X) (\<lambda>x_gb.
     bind_err (apply_eval t x_gb) (\<lambda>(x_gb_f, t1).
     bind_err (get_best x_gb x_gb_f best_x best_fitness) (\<lambda>(best_x1, best_fitness1).
     bind_err (mask R P t1 k g1) (\<lambda>(m, g2).
     bind_err (recombine m population best_x1) (\<lambda>Y.
     bind_err (apply_along_axis (task_repair t1) Y) (\<lambda>population'.
     bind_err (apply_eval t1 population') (\<lambda>(population_fitness', t2).
     bind_err (get_best population' population_fitness' best_x1 best_fitness1)
       (\<lambda>(best_x2, best_fitness2).
     bind_err (inject_best population' population_fitness' x_gb x_gb_f)
       (\<lambda>(population'', population_fitness'').
     Inr (population'', population_fitness'', best_x2, best_fitness2, k, c, t2, g2)))))))))))"

text \<open>
  The constants of \<^verbatim>\<open>init_population\<close>:
  \<^verbatim>\<open>
  k, c = int(ceil(self.population_size / task.dimension)), int(ceil(self.c * task.dimension))
  \<close>
\<close>

definition v3_constants :: "params \<Rightarrow> task \<Rightarrow> error + (int \<times> int)" where
  "v3_constants P t =
     (if dimension t = 0 then Inl ZeroDivisionError
      else Inr (\<lceil>real (population_size P) / real (dimension t)\<rceil>,
                \<lceil>c_param P * real (dimension t)\<rceil>))"

subsection \<open>The older module: individuals\<close>

text \<open>
  \<^verbatim>\<open>class MkeSolution(object)\<close> of \<^verbatim>\<open>NiaPy/algorithms/basic/mke.py\<close>. The fitness of
  the personal best starts as \<^verbatim>\<open>inf\<close> and no code before the first
  \<^verbatim>\<open>uPersonalBest\<close> changes it: \<open>None\<close> stands for \<^verbatim>\<open>inf\<close>, below which every
  number lies. \<^verbatim>\<open>self.x_pb = self.x\<close> makes the two names one array; \<open>x_pb_is_x\<close>
  records that they are, since \<^verbatim>\<open>MkeSolution.repair\<close> writes into the array of
  \<^verbatim>\<open>self.x\<close>.
\<close>

record OldMkeSolution =
  old_x :: vec
  old_f :: real
  old_x_pb :: vec
  old_f_pb :: "real option"
  MonkeyKing :: bool
  x_pb_is_x :: bool

definition less_inf :: "real \<Rightarrow> real option \<Rightarrow> bool" where
  "less_inf a b = (case b of None \<Rightarrow> True | Some v \<Rightarrow> a < v)"

text \<open>
  The constructor as \<^verbatim>\<open>runTask\<close> calls it, \<^verbatim>\<open>MkeSolution(task=task)\<close>: no position
  is given, so the individual is generated, and no \<^verbatim>\<open>rand\<close> is given, so the source of
  the draw is the default of \<^verbatim>\<open>kwargs.get('rand', rand)\<close>, the module
  \<^verbatim>\<open>numpy.random\<close> with its process-wide state \<open>rnd\<close>.
  \<^verbatim>\<open>
  def generateSolution(self, task, rnd):
      self.x = task.Lower + task.bRange * rnd.rand(task.D)
      self.x_pb = self.x
      self.evaluate(task)
  def evaluate(self, task): self.f = task.eval(self.x)
  \<close>
\<close>

definition generateSolution ::
  "'g rng_ops \<Rightarrow> task \<Rightarrow> 'g \<Rightarrow> error + (OldMkeSolution \<times> task \<times> 'g)" where
  "generateSolution R t rnd =
     (let (u, rnd') = random_vec R (dimension t) rnd in
      bind_err (ew (-) (upper t) (lower t)) (\<lambda>bRange.
      bind_err (ew (*) bRange u) (\<lambda>s.
      bind_err (ew (+) (lower t) s) (\<lambda>xv.
      bind_err (task_eval t xv) (\<lambda>(fv, t').
      Inr (\<lparr>old_x = xv, old_f = fv, old_x_pb = xv, old_f_pb = None, MonkeyKing = False,
             x_pb_is_x = True\<rparr>, t', rnd'))))))"

text \<open>
  \<^verbatim>\<open>
  def uPersonalBest(self):
      if self.f < self.f_pb: self.x_pb, self.f_pb = self.x, self.f
  \<close>
\<close>

definition uPersonalBest :: "OldMkeSolution \<Rightarrow> OldMkeSolution" where
  "uPersonalBest p =
     (if less_inf (old_f p) (old_f_pb p)
      then p\<lparr>old_x_pb := old_x p, old_f_pb := Some (old_f p), x_pb_is_x := True\<rparr>
      else p)"

subsection \<open>Boundary repair of the older module\<close>

text \<open>
  \<^verbatim>\<open>
  def repair(self, x, task):
      ir = where(x > task.Upper)
      x[ir] = task.Upper[ir]
      ir = where(x < task.Lower)
      x[ir] = task.Lower[ir]
      return x
  \<close>
  Two passes over the array, the upper bound first. In a run the position and the two
  bound vectors have the task's dimension; arrays of different lengths are refused here
  as a shape error.
\<close>

definition clip_upper :: "vec \<Rightarrow> vec \<Rightarrow> vec" where
  "clip_upper v Upper = map2 (\<lambda>vi ui. if vi > ui then ui else vi) v Upper"

definition clip_lower :: "vec \<Rightarrow> vec \<Rightarrow> vec" where
  "clip_lower v Lower = map2 (\<lambda>vi li. if vi < li then li else vi) v Lower"

definition repair :: "vec \<Rightarrow> vec \<Rightarrow> vec \<Rightarrow> error + vec" where
  "repair v Lower Upper =
     (if length v \<noteq> length Upper \<or> length v \<noteq> length Lower then Inl ValueError
      else Inr (clip_lower (clip_upper v Upper) Lower))"

text \<open>
  \<^verbatim>\<open>
  def repair(self, task):            # MkeSolution.repair
      ir = where(self.x > task.Upper)
      self.x[ir] = task.Upper[ir]
      ir = where(self.x < task.Lower)
      self.x[ir] = task.Lower[ir]
  \<close>
  The same two passes as the algorithm's \<^verbatim>\<open>repair\<close>, written into the individual's
  own array, and so also into its personal best while that is the same array.
\<close>

definition MkeSolution_repair :: "OldMkeSolution \<Rightarrow> task \<Rightarrow> error + OldMkeSolution" where
  "MkeSolution_repair p t =
     bind_err (repair (old_x p) (lower t) (upper t)) (\<lambda>v.
     Inr (p\<lparr>old_x := v, old_x_pb := (if x_pb_is_x p then v else old_x_pb p)\<rparr>))"

subsection \<open>The older module: version 1\<close>

text \<open>
  \<^verbatim>\<open>
  def moveP(self, x, x_pb, x_b, task): return x_pb + self.F * self.rand.rand(task.D) * (x_b - x)
  def moveMK(self, x, task): return x + self.FC * self.rand.rand(int(self.C * task.D), task.D) * x
  \<close>
\<close>

definition moveP ::
  "'g rng_ops \<Rightarrow> params \<Rightarrow> vec \<Rightarrow> vec \<Rightarrow> vec \<Rightarrow> task \<Rightarrow> 'g \<Rightarrow> error + (vec \<times> 'g)" where
  "moveP R P xv xpb xb t g =
     (let (r, g') = random_vec R (dimension t) g in
      bind_err (ew (-) xb xv) (\<lambda>d.
      bind_err (ew (*) (smul (fluctuation_coeff P) r) d) (\<lambda>m.
      bind_err (ew (+) xpb m) (\<lambda>y. Inr (y, g')))))"

definition moveMK ::
  "'g rng_ops \<Rightarrow> params \<Rightarrow> vec \<Rightarrow> task \<Rightarrow> 'g \<Rightarrow> error + (vec list \<times> 'g)" where
  "moveMK R P xv t g =
     (let n = py_int (c_param P * real (dimension t)) in
      if n < 0 then Inl ValueError
      else
        let (U, g') = random_mat R (nat n) (dimension t) g in
        bind_err
          (map_err (\<lambda>u. bind_err (ew (*) (smul (fc P) u) xv) (\<lambda>m. ew (+) xv m)) U)
          (\<lambda>A. Inr (A, g')))"

text \<open>
  \<^verbatim>\<open>
  def movePartice(self, p, p_b, task):
      p.x = self.repair(self.moveP(p.x, p.x_pb, p_b.x, task), task)
      p.evaluate(task)
  \<close>
  \<open>xb\<close> is \<^verbatim>\<open>p_b.x\<close> as it is when the call is made.
\<close>

definition movePartice ::
  "'g rng_ops \<Rightarrow> params \<Rightarrow> OldMkeSolution \<Rightarrow> vec \<Rightarrow> task \<Rightarrow> 'g
     \<Rightarrow> error + (OldMkeSolution \<times> task \<times> 'g)" where
  "movePartice R P p xb t g =
     bind_err (moveP R P (old_x p) (old_x_pb p) xb t g) (\<lambda>(y, g').
     bind_err (repair y (lower t) (upper t)) (\<lambda>v.
     bind_err (task_eval t v) (\<lambda>(fv, t').
     Inr (p\<lparr>old_x := v, old_f := fv, x_pb_is_x := False\<rparr>, t', g'))))"

text \<open>
  \<^verbatim>\<open>
  def moveMokeyKingPartice(self, p, task):
      p.MonkeyKing = False
      A = apply_along_axis(self.repair, 1, self.moveMK(p.x, task), task)
      A_f = apply_along_axis(task.eval, 1, A)
      ib = argmin(A_f)
      p.x, p.f = A[ib], A_f[ib]
  \<close>
\<close>

definition moveMokeyKingPartice ::
  "'g rng_ops \<Rightarrow> params \<Rightarrow> OldMkeSolution \<Rightarrow> task \<Rightarrow> 'g
     \<Rightarrow> error + (OldMkeSolution \<times> task \<times> 'g)" where
  "moveMokeyKingPartice R P p t g =
     bind_err (moveMK R P (old_x p) t g) (\<lambda>(M, g').
     bind_err (apply_along_axis (\<lambda>row. repair row (lower t) (upper t)) M) (\<lambda>A.
     bind_err (apply_eval t A) (\<lambda>(A_f, t').
     bind_err (argmin A_f) (\<lambda>ib.
     Inr (p\<lparr>MonkeyKing := False, old_x := A ! ib, old_f := A_f ! ib, x_pb_is_x := False\<rparr>,
          t', g')))))"

text \<open>
  \<^verbatim>\<open>
  def movePopulation(self, pop, p_b, task):
      for p in pop:
          if p.MonkeyKing: self.moveMokeyKingPartice(p, task)
          else: self.movePartice(p, p_b, task)
          p.uPersonalBest()
  \<close>
  \<^verbatim>\<open>p_b\<close> is not a copy: \<^verbatim>\<open>runTask\<close> binds it to one of the objects of \<^verbatim>\<open>pop\<close>.
  The model keeps the population as the store of these objects and \<^verbatim>\<open>p_b\<close> as the
  index \<open>b\<close> of the object it refers to, so that \<^verbatim>\<open>p_b.x\<close> and \<^verbatim>\<open>p_b.f\<close> are read
  from the population as it stands.
\<close>

definition moveOne ::
  "'g rng_ops \<Rightarrow> params \<Rightarrow> nat \<Rightarrow> nat \<Rightarrow> OldMkeSolution list \<times> task \<times> 'g
     \<Rightarrow> error + (OldMkeSolution list \<times> task \<times> 'g)" where
  "moveOne R P b i s =
     (case s of (pop, t, g) \<Rightarrow>
      bind_err (item_at pop i) (\<lambda>p.
      bind_err (item_at pop b) (\<lambda>p_b.
      bind_err
        (if MonkeyKing p then moveMokeyKingPartice R P p t g
         else movePartice R P p (old_x p_b) t g)
        (\<lambda>(p', t', g'). Inr (pop[i := uPersonalBest p'], t', g')))))"

definition movePopulation ::
  "'g rng_ops \<Rightarrow> params \<Rightarrow> OldMkeSolution list \<Rightarrow> nat \<Rightarrow> task \<Rightarrow> 'g
     \<Rightarrow> error + (OldMkeSolution list \<times> task \<times> 'g)" where
  "movePopulation R P pop b t g = fold_err (moveOne R P b) [0..<length pop] (pop, t, g)"

text \<open>
  \<^verbatim>\<open>
  def runTask(self, task):
      pop = [MkeSolution(task=task) for i in range(self.NP)]
      p_b = pop[argmin([x.f for x in pop])]
      for i in self.rand.choice(self.NP, int(self.R * len(pop)), replace=False): pop[i].MonkeyKing = True
      while not task.stopCond():
          self.movePopulation(pop, p_b, task)
          for i in self.rand.choice(self.NP, int(self.R * len(pop)), replace=False): pop[i].MonkeyKing = True
          ib = argmin([x.f for x in pop])
          if pop[ib].f < p_b.f: p_b = pop[ib]
      return p_b.x, p_b.f
  \<close>
  Two generator states are threaded: \<open>g\<close>, the algorithm's own \<^verbatim>\<open>self.rand\<close> (seeded
  from the configuration), and \<open>rnd\<close>, the state of the module \<^verbatim>\<open>numpy.random\<close> that
  the constructor of the individuals falls back to. The state of the run is the
  population, the index \<open>b\<close> that \<^verbatim>\<open>p_b\<close> refers to, the task and both generators.
\<close>

definition addMkeSolution ::
  "'g rng_ops \<Rightarrow> OldMkeSolution list \<times> task \<times> 'g
     \<Rightarrow> error + (OldMkeSolution list \<times> task \<times> 'g)" where
  "addMkeSolution R s =
     (case s of (pop, t, rnd) \<Rightarrow>
      bind_err (generateSolution R t rnd) (\<lambda>(p, t', rnd'). Inr (pop @ [p], t', rnd')))"

definition setMonkeyKing :: "nat \<Rightarrow> OldMkeSolution list \<Rightarrow> error + OldMkeSolution list" where
  "setMonkeyKing i pop =
     (if i < length pop then Inr (pop[i := (pop ! i)\<lparr>MonkeyKing := True\<rparr>])
      else Inl IndexError)"

definition flagMonkeyKings ::
  "'g rng_ops \<Rightarrow> params \<Rightarrow> OldMkeSolution list \<Rightarrow> 'g
     \<Rightarrow> error + (OldMkeSolution list \<times> 'g)" where
  "flagMonkeyKings R P pop g =
     bind_err
       (rng_choice_norep R (population_size P)
          (py_int (population_rate P * real (length pop))) g)
       (\<lambda>(idx, g'). bind_err (fold_err setMonkeyKing idx pop) (\<lambda>pop'. Inr (pop', g')))"

type_synonym 'g run_state = "OldMkeSolution list \<times> nat \<times> task \<times> 'g \<times> 'g"

definition runTask_init ::
  "'g rng_ops \<Rightarrow> params \<Rightarrow> task \<Rightarrow> 'g \<Rightarrow> 'g \<Rightarrow> error + 'g run_state" where
  "runTask_init R P t g rnd =
     bind_err (fold_err (\<lambda>_. addMkeSolution R) [0..<population_size P] ([], t, rnd))
       (\<lambda>(pop, t', rnd').
     bind_err (argmin (map old_f pop)) (\<lambda>b.
     bind_err (flagMonkeyKings R P pop g) (\<lambda>(pop', g').
     Inr (pop', b, t', g', rnd'))))"

definition runTask_body :: "'g rng_ops \<Rightarrow> params \<Rightarrow> 'g run_state \<Rightarrow> error + 'g run_state" where
  "runTask_body R P s =
     (case s of (pop, b, t, g, rnd) \<Rightarrow>
      bind_err (movePopulation R P pop b t g) (\<lambda>(pop1, t', g1).
      bind_err (flagMonkeyKings R P pop1 g1) (\<lambda>(pop2, g2).
      bind_err (argmin (map old_f pop2)) (\<lambda>ib.
      bind_err (item_at pop2 ib) (\<lambda>p_ib.
      bind_err (item_at pop2 b) (\<lambda>p_b.
      Inr (pop2, (if old_f p_ib < old_f p_b then ib else b), t', g2, rnd)))))))"

partial_function (option) runTask_loop ::
  "'g rng_ops \<Rightarrow> params \<Rightarrow> 'g run_state \<Rightarrow> (error + 'g run_state) option" where
  "runTask_loop R P s =
     (if stopping_condition (fst (snd (snd s))) then Some (Inr s)
      else (case runTask_body R P s of
              Inl e \<Rightarrow> Some (Inl e)
            | Inr s' \<Rightarrow> runTask_loop R P s'))"

text \<open>The tracked best of a state of the run, \<^verbatim>\<open>(p_b.x, p_b.f)\<close>.\<close>

definition tracked_best :: "'g run_state \<Rightarrow> vec \<times> real" where
  "tracked_best s = (case s of (pop, b, t, g, rnd) \<Rightarrow> (old_x (pop ! b), old_f (pop ! b)))"

definition runTask ::
  "'g rng_ops \<Rightarrow> params \<Rightarrow> task \<Rightarrow> 'g \<Rightarrow> 'g \<Rightarrow> (error + vec \<times> real) option" where
  "runTask R P t g rnd =
     (case runTask_init R P t g rnd of
        Inl e \<Rightarrow> Some (Inl e)
      | Inr s \<Rightarrow>
          (case runTask_loop R P s of
             None \<Rightarrow> None
           | Some (Inl e) \<Rightarrow> Some (Inl e)
           | Some (Inr s') \<Rightarrow> Some (Inr (tracked_best s'))))"

subsection \<open>Version 2: the trials of a Monkey King, named\<close>

text \<open>
  To state what the loop of version 2 computes, the draws of its \<open>n\<close> passes are
  named: \<open>v2_draws\<close> is the list of index samples that \<open>n\<close> successive calls of
  \<^verbatim>\<open>choice(population_size, 2, replace=False)\<close> return from a generator state, with the
  state left behind. \<open>v2_candidate\<close> is the candidate of one sample as the spec words it,
  \<open>elite_position - fc * (position_j - position_k)\<close>, clipped to the bounds.
  \<open>keep_best\<close> keeps, along a list of candidates, a pair of position and fitness
  that changes only for a strictly smaller fitness.
\<close>

primrec v2_draws :: "'g rng_ops \<Rightarrow> nat \<Rightarrow> nat \<Rightarrow> 'g \<Rightarrow> nat list list \<times> 'g" where
  "v2_draws R np 0 g = ([], g)"
| "v2_draws R np (Suc n) g =
     (let (r, g') = choice_norep R np 2 g; (rs, g'') = v2_draws R np n g'
      in (r # rs, g''))"

definition v2_candidate :: "params \<Rightarrow> task \<Rightarrow> MkeSolution list \<Rightarrow> vec \<Rightarrow> nat list \<Rightarrow> vec" where
  "v2_candidate P t pop xv r =
     clip_vec t (vsub xv (smul (fc P) (vsub (sol_x (pop ! (r ! 0))) (sol_x (pop ! (r ! 1))))))"

primrec keep_best :: "(vec \<Rightarrow> real) \<Rightarrow> vec list \<Rightarrow> vec \<times> real \<Rightarrow> vec \<times> real" where
  "keep_best h [] b = b"
| "keep_best h (a # as) b = keep_best h as (if h a < snd b then (a, h a) else b)"

subsection \<open>A scripted random source and a task for the examples\<close>

text \<open>
  For the examples a generator is needed whose draws can be written down: its state is a
  tape of natural numbers, read from the left (zeros once it is used up). A number
  \<open>a\<close> on the tape stands for the uniform draw \<open>(a mod 10) / 10\<close>, for the index
  \<open>a mod n\<close> of a draw with replacement, for the position \<open>a mod m\<close> among the
  \<open>m\<close> indices still left of a draw without replacement, and for a rotation by \<open>a\<close>
  as the shuffle.
\<close>

definition tape_unit :: "nat \<Rightarrow> real" where
  "tape_unit a = real (a mod 10) / 10"

definition tape_take :: "nat \<Rightarrow> nat list \<Rightarrow> nat list" where
  "tape_take n g = take n (g @ replicate n 0)"

fun tape_pick :: "nat list \<Rightarrow> nat \<Rightarrow> nat list \<Rightarrow> nat list" where
  "tape_pick rest 0 g = []"
| "tape_pick rest (Suc k) g =
     (if rest = [] then []
      else let i = hd (tape_take 1 g) mod length rest
           in rest ! i # tape_pick (take i rest @ drop (Suc i) rest) k (drop 1 g))"

definition tape_rng :: "(nat list) rng_ops" where
  "tape_rng =
     \<lparr>random_vec = (\<lambda>n g. (map tape_unit (tape_take n g), drop n g)),
      random_mat = (\<lambda>n d g.
         (map (\<lambda>i. map tape_unit (take d (drop (i * d) (tape_take (n * d) g)))) [0..<n],
          drop (n * d) g)),
      choice = (\<lambda>n k g. (map (\<lambda>a. a mod n) (tape_take k g), drop k g)),
      choice_norep = (\<lambda>n k g. (tape_pick [0..<n] k g, drop k g)),
      shuffle = (\<lambda>v g. (rotate (hd (tape_take 1 g)) v, drop 1 g))\<rparr>"

text \<open>The sphere function of the spec's scenarios, on \<open>[-100, 100]\<close> in \<open>d\<close> dimensions.\<close>

definition sphere :: "vec \<Rightarrow> real" where
  "sphere v = sum_list (map (\<lambda>u. u * u) v)"

definition sphere_task :: "nat \<Rightarrow> nat option \<Rightarrow> task" where
  "sphere_task d budget =
     \<lparr>dimension = d, lower = replicate d (- 100), upper = replicate d 100,
      objective = sphere, max_evals = budget, evals = 0\<rparr>"

section \<open>Properties\<close>

subsection \<open>Steps that succeed\<close>

lemma bind_err_Inr [simp]: "bind_err (Inr a) k = k a"
  by (simp add: bind_err_def)

lemma bind_err_Inl [simp]: "bind_err (Inl e) k = Inl e"
  by (simp add: bind_err_def)

lemma map_err_all_Inr:
  "(\<And>a. a \<in> set xs \<Longrightarrow> h a = Inr (k a)) \<Longrightarrow> map_err h xs = Inr (map k xs)"
  by (induction xs) simp_all

lemma ew_same_length: "length a = length b \<Longrightarrow> ew op a b = Inr (map2 op a b)"
  by (simp add: ew_def)

lemma length_clip_vec:
  "length (lower t) = dimension t \<Longrightarrow> length (upper t) = dimension t \<Longrightarrow> length v = dimension t
     \<Longrightarrow> length (clip_vec t v) = dimension t"
  by (simp add: clip_vec_def)

lemma eval_rows_all:
  "(\<And>v. v \<in> set M \<Longrightarrow> length v = dimension t)
     \<Longrightarrow> eval_rows t M = Inr (map (objective t) M, t\<lparr>evals := evals t + length M\<rparr>)"
proof (induction M arbitrary: t)
  case Nil
  then show ?case by simp
next
  case (Cons v M)
  let ?t = "t\<lparr>evals := Suc (evals t)\<rparr>"
  have "eval_rows ?t M = Inr (map (objective ?t) M, ?t\<lparr>evals := evals ?t + length M\<rparr>)"
    using Cons.prems by (intro Cons.IH) simp
  then show ?case using Cons.prems by (simp add: task_eval_def)
qed

lemma bind_err_eq_Inr: "bind_err m k = Inr y \<longleftrightarrow> (\<exists>a. m = Inr a \<and> k a = Inr y)"
  by (cases m) simp_all

lemma map_err_length: "map_err h xs = Inr ys \<Longrightarrow> length ys = length xs"
  by (induction xs arbitrary: ys) (auto simp: bind_err_eq_Inr)

lemma eval_rows_length: "eval_rows t M = Inr (fs, t') \<Longrightarrow> length fs = length M"
  by (induction M arbitrary: t fs t') (auto simp: bind_err_eq_Inr)

lemma apply_along_axis_length:
  "apply_along_axis h M = Inr A \<Longrightarrow> A \<noteq> [] \<and> length A = length M"
  by (auto simp: apply_along_axis_def split: if_splits dest: map_err_length)

lemma apply_eval_length:
  "apply_eval t M = Inr (fs, t') \<Longrightarrow> M \<noteq> [] \<and> length fs = length M"
  by (auto simp: apply_eval_def split: if_splits dest: eval_rows_length)

subsection \<open>The first index of the least and of the greatest entry\<close>

lemma argmin_list_less: "fs \<noteq> [] \<Longrightarrow> argmin_list fs < length fs"
  by (induction fs rule: argmin_list.induct) (auto simp: Let_def)

lemma argmin_list_le: "j < length fs \<Longrightarrow> fs ! argmin_list fs \<le> fs ! j"
proof (induction fs arbitrary: j rule: argmin_list.induct)
  case 1
  then show ?case by simp
next
  case (2 v)
  then show ?case by simp
next
  case (3 v w ws)
  show ?case
  proof (cases j)
    case 0
    then show ?thesis by (auto simp: Let_def)
  next
    case (Suc j')
    with 3 have "(w # ws) ! argmin_list (w # ws) \<le> (w # ws) ! j'" by simp
    with Suc show ?thesis by (auto simp: Let_def)
  qed
qed

lemma argmin_list_first: "j < argmin_list fs \<Longrightarrow> fs ! argmin_list fs < fs ! j"
proof (induction fs arbitrary: j rule: argmin_list.induct)
  case 1
  then show ?case by simp
next
  case (2 v)
  then show ?case by simp
next
  case (3 v w ws)
  show ?case
  proof (cases j)
    case 0
    with 3(2) show ?thesis by (auto simp: Let_def split: if_splits)
  next
    case (Suc j')
    with 3(2) have "j' < argmin_list (w # ws)" by (auto simp: Let_def split: if_splits)
    with 3(1) have "(w # ws) ! argmin_list (w # ws) < (w # ws) ! j'" by simp
    with Suc 3(2) show ?thesis by (auto simp: Let_def split: if_splits)
  qed
qed

lemma argmax_list_less: "fs \<noteq> [] \<Longrightarrow> argmax_list fs < length fs"
  by (induction fs rule: argmax_list.induct) (auto simp: Let_def)

lemma argmax_list_ge: "j < length fs \<Longrightarrow> fs ! j \<le> fs ! argmax_list fs"
proof (induction fs arbitrary: j rule: argmax_list.induct)
  case 1
  then show ?case by simp
next
  case (2 v)
  then show ?case by simp
next
  case (3 v w ws)
  show ?case
  proof (cases j)
    case 0
    then show ?thesis by (auto simp: Let_def)
  next
    case (Suc j')
    with 3 have "(w # ws) ! j' \<le> (w # ws) ! argmax_list (w # ws)" by simp
    with Suc show ?thesis by (auto simp: Let_def)
  qed
qed

lemma argmax_list_first: "j < argmax_list fs \<Longrightarrow> fs ! j < fs ! argmax_list fs"
proof (induction fs arbitrary: j rule: argmax_list.induct)
  case 1
  then show ?case by simp
next
  case (2 v)
  then show ?case by simp
next
  case (3 v w ws)
  show ?case
  proof (cases j)
    case 0
    with 3(2) show ?thesis by (auto simp: Let_def split: if_splits)
  next
    case (Suc j')
    with 3(2) have "j' < argmax_list (w # ws)" by (auto simp: Let_def split: if_splits)
    with 3(1) have "(w # ws) ! j' < (w # ws) ! argmax_list (w # ws)" by simp
    with Suc 3(2) show ?thesis by (auto simp: Let_def split: if_splits)
  qed
qed

lemma nth_argmax_Max: "fs \<noteq> [] \<Longrightarrow> fs ! argmax_list fs = Max (set fs)"
proof (rule antisym)
  assume ne: "fs \<noteq> []"
  then have "fs ! argmax_list fs \<in> set fs" by (simp add: argmax_list_less)
  then show "fs ! argmax_list fs \<le> Max (set fs)" by simp
  show "Max (set fs) \<le> fs ! argmax_list fs"
    using ne by (auto simp: in_set_conv_nth argmax_list_ge)
qed

lemma nth_argmin_Min: "fs \<noteq> [] \<Longrightarrow> fs ! argmin_list fs = Min (set fs)"
proof (rule antisym)
  assume ne: "fs \<noteq> []"
  then have "fs ! argmin_list fs \<in> set fs" by (simp add: argmin_list_less)
  then show "Min (set fs) \<le> fs ! argmin_list fs" by simp
  show "fs ! argmin_list fs \<le> Min (set fs)"
    using ne by (auto simp: in_set_conv_nth argmin_list_le)
qed

subsection \<open>The scripted generator keeps numpy's promises\<close>

lemma tape_unit_range: "0 \<le> tape_unit a \<and> tape_unit a < 1"
proof -
  have "a mod 10 < 10" by simp
  then have "real (a mod 10) < 10" by (metis of_nat_less_iff of_nat_numeral)
  then show ?thesis by (simp add: tape_unit_def)
qed

lemma length_tape_take [simp]: "length (tape_take n g) = n"
  by (simp add: tape_take_def)

lemma tape_row_length:
  assumes "i < n"
  shows "length (take d (drop (i * d) (tape_take (n * d) g))) = d"
proof -
  from assms have "Suc i \<le> n" by simp
  then have "Suc i * d \<le> n * d" by (rule mult_le_mono1)
  then have "d \<le> n * d - i * d" by simp
  then show ?thesis by simp
qed

lemma tape_pick_ok:
  "k \<le> length rest \<Longrightarrow> distinct rest \<Longrightarrow>
     length (tape_pick rest k g) = k \<and> distinct (tape_pick rest k g)
     \<and> set (tape_pick rest k g) \<subseteq> set rest"
proof (induction k arbitrary: rest g)
  case 0
  then show ?case by simp
next
  case (Suc k)
  let ?i = "hd (tape_take 1 g) mod length rest"
  let ?rest' = "take ?i rest @ drop (Suc ?i) rest"
  from Suc.prems(1) have ne: "rest \<noteq> []" by auto
  then have i: "?i < length rest" by simp
  have split: "take ?i rest @ rest ! ?i # drop (Suc ?i) rest = rest"
    using i by (simp add: id_take_nth_drop [symmetric])
  have d: "distinct (take ?i rest @ rest ! ?i # drop (Suc ?i) rest)"
    using Suc.prems(2) by (simp only: split)
  then have d': "distinct ?rest'" and notin: "rest ! ?i \<notin> set ?rest'" by auto
  have sub: "set ?rest' \<subseteq> set rest"
    using set_take_subset [of ?i rest] set_drop_subset [of "Suc ?i" rest] by auto
  have len: "k \<le> length ?rest'" using Suc.prems(1) i by simp
  from Suc.IH [OF len d', of "drop 1 g"]
  have ih: "length (tape_pick ?rest' k (drop 1 g)) = k"
    "distinct (tape_pick ?rest' k (drop 1 g))"
    "set (tape_pick ?rest' k (drop 1 g)) \<subseteq> set ?rest'" by simp_all
  have "tape_pick rest (Suc k) g = rest ! ?i # tape_pick ?rest' k (drop 1 g)"
    using ne by (simp add: Let_def)
  moreover have "rest ! ?i \<in> set rest" using i by simp
  ultimately show ?case using ih notin sub by auto
qed

lemma mset_rotate_eq: "mset (rotate n xs) = mset xs"
proof -
  let ?k = "n mod length xs"
  have "mset (take ?k xs) + mset (drop ?k xs) = mset (take ?k xs @ drop ?k xs)"
    by (simp only: mset_append)
  then have "mset (take ?k xs) + mset (drop ?k xs) = mset xs"
    by (simp only: append_take_drop_id)
  then show ?thesis by (simp add: rotate_drop_take add.commute)
qed

lemma tape_rng_contract: "rng_contract tape_rng"
  unfolding rng_contract_def
proof (intro conjI allI impI)
  fix n :: nat and g :: "nat list"
  show "length (fst (random_vec tape_rng n g)) = n" by (simp add: tape_rng_def)
  show "\<forall>u \<in> set (fst (random_vec tape_rng n g)). 0 \<le> u \<and> u < 1"
    using tape_unit_range by (auto simp: tape_rng_def)
next
  fix n d :: nat and g :: "nat list"
  show "length (fst (random_mat tape_rng n d g)) = n" by (simp add: tape_rng_def)
  show "\<forall>row \<in> set (fst (random_mat tape_rng n d g)).
          length row = d \<and> (\<forall>u \<in> set row. 0 \<le> u \<and> u < 1)"
    using tape_unit_range tape_row_length by (auto simp: tape_rng_def simp del: length_take length_drop)
next
  fix n k :: nat and g :: "nat list"
  assume "0 < n"
  then show "length (fst (choice tape_rng n k g)) = k"
    and "\<forall>i \<in> set (fst (choice tape_rng n k g)). i < n"
    by (auto simp: tape_rng_def)
next
  fix n k :: nat and g :: "nat list"
  assume "k \<le> n"
  then have "k \<le> length [0..<n]" by simp
  from tape_pick_ok [OF this, of g]
  show "length (fst (choice_norep tape_rng n k g)) = k"
    and "distinct (fst (choice_norep tape_rng n k g))"
    and "\<forall>i \<in> set (fst (choice_norep tape_rng n k g)). i < n"
    by (auto simp: tape_rng_def)
next
  fix v :: vec and g :: "nat list"
  show "mset (fst (shuffle tape_rng v g)) = mset v"
    by (simp add: tape_rng_def mset_rotate_eq)
qed

text \<open>The definitions that computing an example unfolds.\<close>

lemmas example_defs = tape_rng_def tape_take_def tape_unit_def sphere_task_def sphere_def
  ew_def smul_def task_eval_def task_repair_def clip_vec_def clip_def py_int_def item_at_def
  argmin_def apply_along_axis_def apply_eval_def rng_choice_norep_def rng_choice_def

lemma upt_0_2: "[0..<2] = [0, Suc 0]"
  by (simp add: upt_conv_Cons)

lemma replicate_2: "replicate 2 a = [a, a]"
  by (simp add: numeral_2_eq_2)

lemmas old_defs = runTask_init_def runTask_body_def addMkeSolution_def generateSolution_def
  flagMonkeyKings_def setMonkeyKing_def movePopulation_def moveOne_def movePartice_def
  moveMokeyKingPartice_def moveP_def moveMK_def uPersonalBest_def less_inf_def repair_def
  clip_lower_def clip_upper_def stopping_condition_def tracked_best_def

subsection \<open>Personal best\<close>

text \<open>
  C4. \<^verbatim>\<open>update_personal_best\<close> overwrites both personal-best fields with the current
  position and fitness exactly when the fitness is strictly below the personal-best
  fitness; a tie (and any worse fitness) leaves the individual as it was. Position and
  fitness are never touched. Afterwards the personal-best fitness is at most the fitness,
  equals the minimum of its old value and the fitness, and so has not increased.
\<close>

theorem update_personal_best_spec:
  "(sol_f p < f_pb p \<longrightarrow>
      x_pb (update_personal_best p) = sol_x p \<and> f_pb (update_personal_best p) = sol_f p)
   \<and> (\<not> sol_f p < f_pb p \<longrightarrow> update_personal_best p = p)
   \<and> (sol_f p = f_pb p \<longrightarrow> update_personal_best p = p)
   \<and> sol_x (update_personal_best p) = sol_x p
   \<and> sol_f (update_personal_best p) = sol_f p
   \<and> monkey_king (update_personal_best p) = monkey_king p
   \<and> f_pb (update_personal_best p) \<le> sol_f (update_personal_best p)
   \<and> f_pb (update_personal_best p) = min (f_pb p) (sol_f p)
   \<and> f_pb (update_personal_best p) \<le> f_pb p"
  by (simp add: update_personal_best_def min_def)

theorem update_personal_best_spec_witness:
  "update_personal_best
     \<lparr>sol_x = [1, 2], sol_f = 3, x_pb = [0, 0], f_pb = 5, monkey_king = False\<rparr>
   = \<lparr>sol_x = [1, 2], sol_f = 3, x_pb = [1, 2], f_pb = 3, monkey_king = False\<rparr>
   \<and> update_personal_best
     \<lparr>sol_x = [1, 2], sol_f = 3, x_pb = [0, 0], f_pb = 3, monkey_king = True\<rparr>
   = \<lparr>sol_x = [1, 2], sol_f = 3, x_pb = [0, 0], f_pb = 3, monkey_king = True\<rparr>"
  using update_personal_best_spec
    [of "\<lparr>sol_x = [1, 2], sol_f = 3, x_pb = [0, 0], f_pb = 5, monkey_king = False\<rparr>"]
    update_personal_best_spec
    [of "\<lparr>sol_x = [1, 2], sol_f = 3, x_pb = [0, 0], f_pb = 3, monkey_king = True\<rparr>"]
  by (simp add: update_personal_best_def)

text \<open>The older \<^verbatim>\<open>uPersonalBest\<close> is the same rule, with \<^verbatim>\<open>inf\<close> as the first personal best.\<close>

lemma uPersonalBest_spec:
  "(less_inf (old_f p) (old_f_pb p) \<longrightarrow>
      old_x_pb (uPersonalBest p) = old_x p \<and> old_f_pb (uPersonalBest p) = Some (old_f p))
   \<and> (\<not> less_inf (old_f p) (old_f_pb p) \<longrightarrow> uPersonalBest p = p)
   \<and> old_x (uPersonalBest p) = old_x p \<and> old_f (uPersonalBest p) = old_f p
   \<and> \<not> less_inf (old_f (uPersonalBest p)) (old_f_pb (uPersonalBest p))"
  by (simp add: uPersonalBest_def less_inf_def)

subsection \<open>The mask complement\<close>

text \<open>
  C10. \<^verbatim>\<open>neg\<close> sends 1 to 0 and every other number to 1. On the binary values 0 and 1
  it is \<open>1 - v\<close> and its own inverse; on any other number applying it twice gives 0.
\<close>

theorem neg_spec:
  "neg 1 = 0
   \<and> (v \<noteq> 1 \<longrightarrow> neg v = 1)
   \<and> (v \<in> {0, 1} \<longrightarrow> neg v = 1 - v \<and> neg (neg v) = v)
   \<and> (v \<notin> {0, 1} \<longrightarrow> neg (neg v) = 0)"
  by (simp add: neg_def)

theorem neg_spec_witness:
  "neg 1 = 0 \<and> neg 0 = 1 \<and> neg (1 / 2) = 1 \<and> neg (neg 0) = 0 \<and> neg (neg 1) = 1
   \<and> neg (neg (1 / 2)) = 0 \<and> neg (neg 7) = 0"
  using neg_spec [of 0] neg_spec [of 1] neg_spec [of "1 / 2"] neg_spec [of 7]
  by simp

subsection \<open>Boundary repair\<close>

lemma clip_nth:
  assumes "length v = length Lower" "length Lower = length Upper" "i < length v"
  shows "clip_lower (clip_upper v Upper) Lower ! i =
           (if (if v ! i > Upper ! i then Upper ! i else v ! i) < Lower ! i then Lower ! i
            else if v ! i > Upper ! i then Upper ! i else v ! i)"
  using assms by (simp add: clip_lower_def clip_upper_def)

text \<open>
  C8. For a position and bounds of one length with \<open>Lower ! i \<le> Upper ! i\<close> throughout,
  \<^verbatim>\<open>repair\<close> returns a vector: component \<open>i\<close> is the upper bound where the input
  exceeds it, the lower bound where the input is below it, and the input otherwise. Every
  component of the result lies between its bounds. The result is a function of the input
  and the two bound vectors alone.
\<close>

theorem repair_clamps:
  assumes "length v = length Lower" and "length Lower = length Upper"
    and "\<forall>i<length v. Lower ! i \<le> Upper ! i"
  shows "\<exists>r. repair v Lower Upper = Inr r \<and> length r = length v
           \<and> (\<forall>i<length v.
                 r ! i = (if v ! i > Upper ! i then Upper ! i
                          else if v ! i < Lower ! i then Lower ! i else v ! i)
                 \<and> Lower ! i \<le> r ! i \<and> r ! i \<le> Upper ! i)"
proof -
  let ?r = "clip_lower (clip_upper v Upper) Lower"
  have r: "repair v Lower Upper = Inr ?r"
    using assms by (simp add: repair_def)
  have len: "length ?r = length v"
    using assms by (simp add: clip_lower_def clip_upper_def)
  have "\<forall>i<length v.
          ?r ! i = (if v ! i > Upper ! i then Upper ! i
                    else if v ! i < Lower ! i then Lower ! i else v ! i)
          \<and> Lower ! i \<le> ?r ! i \<and> ?r ! i \<le> Upper ! i"
  proof (intro allI impI)
    fix i assume i: "i < length v"
    with assms have b: "Lower ! i \<le> Upper ! i" by simp
    from clip_nth [OF assms(1) assms(2) i] b
    show "?r ! i = (if v ! i > Upper ! i then Upper ! i
                    else if v ! i < Lower ! i then Lower ! i else v ! i)
          \<and> Lower ! i \<le> ?r ! i \<and> ?r ! i \<le> Upper ! i"
      by auto
  qed
  with r len show ?thesis by blast
qed

theorem repair_clamps_witness:
  "repair [5, -7, 1] [0, 0, 0] [3, 3, 3] = Inr [3, 0, 1]"
  using repair_clamps [of "[5, -7, 1]" "[0, 0, 0]" "[3, 3, 3]"]
  by (simp add: repair_def clip_lower_def clip_upper_def)

text \<open>
  For bounds in order the task's clipping, as the spec words it, and the two passes of the
  older \<^verbatim>\<open>repair\<close> give the same vector.
\<close>

lemma repair_eq_clip_vec:
  assumes "length v = dimension t" "length (lower t) = dimension t"
    "length (upper t) = dimension t" "\<forall>i<dimension t. lower t ! i \<le> upper t ! i"
  shows "repair v (lower t) (upper t) = Inr (clip_vec t v) \<and> task_repair t v = Inr (clip_vec t v)"
proof -
  have "clip_lower (clip_upper v (upper t)) (lower t) = clip_vec t v"
  proof (rule nth_equalityI)
    show "length (clip_lower (clip_upper v (upper t)) (lower t)) = length (clip_vec t v)"
      using assms(1,2,3) by (simp add: clip_lower_def clip_upper_def clip_vec_def)
  next
    fix i assume "i < length (clip_lower (clip_upper v (upper t)) (lower t))"
    then have i: "i < dimension t"
      using assms(1,2,3) by (simp add: clip_lower_def clip_upper_def)
    with assms(4) have "lower t ! i \<le> upper t ! i" by simp
    then show "clip_lower (clip_upper v (upper t)) (lower t) ! i = clip_vec t v ! i"
      using i assms(1,2,3) by (simp add: clip_lower_def clip_upper_def clip_vec_def clip_def)
  qed
  then show ?thesis using assms(1,2,3) by (simp add: repair_def task_repair_def)
qed

text \<open>
  \<^verbatim>\<open>MkeSolution.repair\<close> leaves in the individual the vector that \<^verbatim>\<open>repair\<close> returns
  for its position, and the same vector as personal best while the two are one array.
\<close>

lemma MkeSolution_repair_position:
  assumes "repair (old_x p) (lower t) (upper t) = Inr r"
  shows "MkeSolution_repair p t = Inr (p\<lparr>old_x := r, old_x_pb := (if x_pb_is_x p then r else old_x_pb p)\<rparr>)"
  using assms by (simp add: MkeSolution_repair_def)

subsection \<open>Version 1: the move of a Monkey King\<close>

lemma move_mk_rows:
  assumes "length xv = dimension t"
    and "c_param P * real (dimension t) = real n"
    and "random_mat R n (dimension t) g = (U, g')"
    and "\<forall>u \<in> set U. length u = dimension t"
  shows "move_mk R P xv t g = Inr (map (\<lambda>u. vadd xv (vmul (smul (fc P) u) xv)) U, g')"
proof -
  have n: "py_int (c_param P * real (dimension t)) = int n"
    using assms(2) by (simp add: py_int_def)
  have "map_err (\<lambda>u. bind_err (ew (*) (smul (fc P) u) xv) (\<lambda>m. ew (+) xv m)) U
          = Inr (map (\<lambda>u. vadd xv (vmul (smul (fc P) u) xv)) U)"
  proof (rule map_err_all_Inr)
    fix u assume "u \<in> set U"
    with assms(4) have "length u = dimension t" by simp
    with assms(1) show "bind_err (ew (*) (smul (fc P) u) xv) (\<lambda>m. ew (+) xv m)
                          = Inr (vadd xv (vmul (smul (fc P) u) xv))"
      by (simp add: ew_same_length smul_def vadd_def vmul_def)
  qed
  then show ?thesis using n assms(3) by (simp add: move_mk_def)
qed

text \<open>
  C6. Let \<open>c * dimension\<close> be the whole number \<open>n > 0\<close> and let the generator hand out
  an \<open>n\<close> by \<open>dimension\<close> matrix \<open>U\<close>. Then the Monkey King's move builds the \<open>n\<close>
  offspring \<open>x + fc * U\<^sub>i * x\<close> (element-wise), repairs each and evaluates each once,
  and replaces the individual's position and fitness by those of the offspring of least
  fitness, the first such offspring in case of a tie. The replacement does not look at the
  individual's old fitness; the flag is cleared and the personal best is left alone.
\<close>

theorem move_monkey_king_particle_spec:
  assumes shape: "length (sol_x p) = dimension t" "length (lower t) = dimension t"
      "length (upper t) = dimension t"
    and count: "c_param P * real (dimension t) = real n" "0 < n"
    and draw: "random_mat R n (dimension t) g = (U, g')" "length U = n"
      "\<forall>u \<in> set U. length u = dimension t"
  shows "\<exists>a ib.
           a = map (\<lambda>u. clip_vec t (vadd (sol_x p) (vmul (smul (fc P) u) (sol_x p)))) U
         \<and> length a = n \<and> ib < n
         \<and> (\<forall>j<n. objective t (a ! ib) \<le> objective t (a ! j))
         \<and> (\<forall>j<ib. objective t (a ! ib) < objective t (a ! j))
         \<and> move_monkey_king_particle R P p t g =
             Inr (p\<lparr>monkey_king := False, sol_x := a ! ib, sol_f := objective t (a ! ib)\<rparr>,
                  t\<lparr>evals := evals t + n\<rparr>, g')"
proof -
  let ?M = "map (\<lambda>u. vadd (sol_x p) (vmul (smul (fc P) u) (sol_x p))) U"
  let ?a = "map (\<lambda>u. clip_vec t (vadd (sol_x p) (vmul (smul (fc P) u) (sol_x p)))) U"
  let ?af = "map (objective t) ?a"
  let ?ib = "argmin_list ?af"
  have mk: "move_mk R P (sol_x p) t g = Inr (?M, g')"
    using shape(1) count(1) draw(1) draw(3) by (rule move_mk_rows)
  have Mne: "?M \<noteq> []" using draw(2) count(2) by auto
  have lenM: "\<And>v. v \<in> set ?M \<Longrightarrow> length v = dimension t"
    using shape(1) draw(3) by (auto simp: vadd_def vmul_def smul_def)
  have "map_err (task_repair t) ?M = Inr (map (clip_vec t) ?M)"
    by (rule map_err_all_Inr) (simp add: task_repair_def lenM)
  then have rep: "apply_along_axis (task_repair t) ?M = Inr ?a"
    using Mne by (simp add: apply_along_axis_def comp_def)
  have ane: "?a \<noteq> []" using Mne by simp
  have lena: "\<And>v. v \<in> set ?a \<Longrightarrow> length v = dimension t"
    using lenM shape(2,3) by (auto simp: length_clip_vec)
  have ev: "apply_eval t ?a = Inr (?af, t\<lparr>evals := evals t + n\<rparr>)"
    using ane eval_rows_all [of ?a t, OF lena] draw(2) by (simp add: apply_eval_def)
  have afne: "?af \<noteq> []" using ane by simp
  have am: "argmin ?af = Inr ?ib" using afne by (simp add: argmin_def)
  have ib: "?ib < n" using argmin_list_less [OF afne] draw(2) by simp
  have nth_af: "\<And>j. j < n \<Longrightarrow> ?af ! j = objective t (?a ! j)"
    using draw(2) by simp
  have le: "\<forall>j<n. objective t (?a ! ?ib) \<le> objective t (?a ! j)"
  proof (intro allI impI)
    fix j assume j: "j < n"
    then have "?af ! ?ib \<le> ?af ! j" using draw(2) by (intro argmin_list_le) simp
    then show "objective t (?a ! ?ib) \<le> objective t (?a ! j)"
      using nth_af [OF j] nth_af [OF ib] by simp
  qed
  have first: "\<forall>j<?ib. objective t (?a ! ?ib) < objective t (?a ! j)"
  proof (intro allI impI)
    fix j assume j: "j < ?ib"
    then have "?af ! ?ib < ?af ! j" by (rule argmin_list_first)
    moreover from j ib have "j < n" by simp
    ultimately show "objective t (?a ! ?ib) < objective t (?a ! j)"
      using nth_af [of j] nth_af [OF ib] by simp
  qed
  have res: "move_monkey_king_particle R P p t g =
          Inr (p\<lparr>monkey_king := False, sol_x := ?a ! ?ib, sol_f := objective t (?a ! ?ib)\<rparr>,
               t\<lparr>evals := evals t + n\<rparr>, g')"
    unfolding move_monkey_king_particle_def using nth_af [OF ib]
    by (simp add: mk rep ev am del: map_map)
  have "length ?a = n" using draw(2) by simp
  with ib le first res show ?thesis by blast
qed

lemma tape_random_mat_2_1:
  "random_mat tape_rng 2 (Suc 0) [4, 2] = ([[2 / 5], [1 / 5]], [])"
  by (simp add: tape_rng_def tape_take_def tape_unit_def upt_conv_Cons)

theorem move_monkey_king_particle_spec_witness:
  "move_monkey_king_particle tape_rng
     \<lparr>population_size = 1, fluctuation_coeff = 7 / 10, population_rate = 1, c_param = 2,
        fc = 1 / 2\<rparr>
     \<lparr>sol_x = [10], sol_f = 100, x_pb = [10], f_pb = 100, monkey_king = True\<rparr>
     (sphere_task 1 None) [4, 2]
   = Inr (\<lparr>sol_x = [11], sol_f = 121, x_pb = [10], f_pb = 100, monkey_king = False\<rparr>,
          (sphere_task 1 None)\<lparr>evals := 2\<rparr>, [])"
proof -
  let ?P = "\<lparr>population_size = 1, fluctuation_coeff = 7 / 10, population_rate = 1,
              c_param = 2, fc = 1 / 2\<rparr>"
  let ?p = "\<lparr>sol_x = [10], sol_f = 100, x_pb = [10], f_pb = 100, monkey_king = True\<rparr>"
  let ?t = "sphere_task 1 None"
  have d: "dimension ?t = Suc 0" by (simp add: sphere_task_def)
  have h1: "length (sol_x ?p) = dimension ?t" by (simp add: sphere_task_def)
  have h2: "length (lower ?t) = dimension ?t" by (simp add: sphere_task_def)
  have h3: "length (upper ?t) = dimension ?t" by (simp add: sphere_task_def)
  have h4: "c_param ?P * real (dimension ?t) = real 2" by (simp add: sphere_task_def)
  have h5: "(0::nat) < 2" by simp
  have h6: "random_mat tape_rng 2 (dimension ?t) [4, 2] = ([[2 / 5], [1 / 5]], [])"
    by (simp only: d tape_random_mat_2_1)
  have h7: "length [[2 / 5], [1 / 5 :: real]] = 2" by simp
  have h8: "\<forall>u \<in> set [[2 / 5], [1 / 5 :: real]]. length u = dimension ?t"
    by (simp add: sphere_task_def)
  from move_monkey_king_particle_spec [OF h1 h2 h3 h4 h5 h6 h7 h8]
  obtain a ib where
    a: "a = map (\<lambda>u. clip_vec ?t (vadd (sol_x ?p) (vmul (smul (fc ?P) u) (sol_x ?p))))
              [[2 / 5], [1 / 5]]"
    and ib: "ib < 2" "\<forall>j<2. objective ?t (a ! ib) \<le> objective ?t (a ! j)"
    and res: "move_monkey_king_particle tape_rng ?P ?p ?t [4, 2] =
             Inr (?p\<lparr>monkey_king := False, sol_x := a ! ib, sol_f := objective ?t (a ! ib)\<rparr>,
                  ?t\<lparr>evals := evals ?t + 2\<rparr>, [])"
    by blast
  have a': "a = [[12], [11]]"
    by (simp add: a clip_vec_def clip_def vadd_def vmul_def smul_def sphere_task_def)
  have f0: "objective ?t [12] = 144" and f1: "objective ?t [11] = 121"
    by (simp_all add: sphere_task_def sphere_def)
  have "ib = 1"
  proof (rule ccontr)
    assume "ib \<noteq> 1"
    with ib(1) have "ib = 0" by simp
    with ib(2) [rule_format, of 1] a' f0 f1 show False by simp
  qed
  with res a' f1 show ?thesis by (simp add: sphere_task_def)
qed

text \<open>Without offspring (\<open>c * dimension = 0\<close>) the move fails: the empty batch is refused.\<close>

lemma move_monkey_king_particle_no_offspring:
  assumes "length (sol_x p) = dimension t" and "c_param P * real (dimension t) = 0"
    and "fst (random_mat R 0 (dimension t) g) = []"
  shows "move_monkey_king_particle R P p t g = Inl ValueError"
proof -
  obtain U g' where r: "random_mat R 0 (dimension t) g = (U, g')"
    by (cases "random_mat R 0 (dimension t) g")
  with assms(3) have "U = []" by simp
  have "py_int (c_param P * real (dimension t)) = 0"
    unfolding assms(2) by (simp add: py_int_def)
  with r \<open>U = []\<close> have "move_mk R P (sol_x p) t g = Inr ([], g')"
    by (simp add: move_mk_def)
  then show ?thesis by (simp add: move_monkey_king_particle_def apply_along_axis_def)
qed

subsection \<open>Version 2: the move of a Monkey King\<close>

lemma keep_best_Min:
  "snd (keep_best h cs b) = Min (insert (snd b) (h ` set cs))"
proof (induction cs arbitrary: b)
  case Nil
  then show ?case by simp
next
  case (Cons a cs)
  let ?S = "h ` set cs"
  show ?case
  proof (cases "h a < snd b")
    case True
    have "Min (insert (h a) ?S) \<le> h a" by simp
    also from True have "h a \<le> snd b" by simp
    finally have "min (snd b) (Min (insert (h a) ?S)) = Min (insert (h a) ?S)"
      by (rule min_absorb2)
    moreover have "Min (insert (snd b) (insert (h a) ?S)) = min (snd b) (Min (insert (h a) ?S))"
      by simp
    ultimately show ?thesis using True Cons.IH [of "(a, h a)"] by simp
  next
    case False
    have "Min (insert (snd b) ?S) \<le> snd b" by simp
    also from False have "snd b \<le> h a" by simp
    finally have "min (h a) (Min (insert (snd b) ?S)) = Min (insert (snd b) ?S)"
      by (rule min_absorb2)
    moreover have "Min (insert (h a) (insert (snd b) ?S)) = min (h a) (Min (insert (snd b) ?S))"
      by simp
    moreover have "insert (snd b) (insert (h a) ?S) = insert (h a) (insert (snd b) ?S)"
      by auto
    ultimately show ?thesis using False Cons.IH [of b] by simp
  qed
qed

lemma keep_best_unchanged:
  "(\<forall>a \<in> set cs. \<not> h a < snd b) \<Longrightarrow> keep_best h cs b = b"
  by (induction cs arbitrary: b) simp_all

lemma keep_best_cases:
  "keep_best h cs b = b
   \<or> (fst (keep_best h cs b) \<in> set cs \<and> snd (keep_best h cs b) = h (fst (keep_best h cs b)))"
proof (induction cs arbitrary: b)
  case Nil
  then show ?case by simp
next
  case (Cons a cs)
  show ?case
  proof (cases "h a < snd b")
    case True
    with Cons.IH [of "(a, h a)"] show ?thesis by auto
  next
    case False
    with Cons.IH [of b] show ?thesis by auto
  qed
qed

lemma keep_best_improved:
  assumes "\<exists>a \<in> set cs. h a < snd b"
  shows "fst (keep_best h cs b) \<in> set cs
         \<and> h (fst (keep_best h cs b)) = snd (keep_best h cs b)"
proof -
  from assms obtain a where a: "a \<in> set cs" "h a < snd b" by blast
  have "snd (keep_best h cs b) \<le> h a"
    using a(1) by (simp add: keep_best_Min)
  with a(2) have "keep_best h cs b \<noteq> b" by auto
  with keep_best_cases [of h cs b] show ?thesis by auto
qed

lemma fold_err_const:
  "length xs = length ys \<Longrightarrow> fold_err (\<lambda>_. h) xs s = fold_err (\<lambda>_. h) ys s"
proof (induction xs ys arbitrary: s rule: list_induct2)
  case Nil
  then show ?case by simp
next
  case (Cons x xs y ys)
  then show ?case by (cases "h s") (simp_all add: bind_err_def)
qed

lemma norep_pair:
  assumes "rng_contract R" "2 \<le> np"
  shows "length (fst (choice_norep R np 2 g)) = 2
         \<and> fst (choice_norep R np 2 g) ! 0 \<noteq> fst (choice_norep R np 2 g) ! 1
         \<and> fst (choice_norep R np 2 g) ! 0 < np
         \<and> fst (choice_norep R np 2 g) ! 1 < np"
proof -
  let ?r = "fst (choice_norep R np 2 g)"
  from assms have len: "length ?r = 2" and d: "distinct ?r" and b: "\<forall>i \<in> set ?r. i < np"
    unfolding rng_contract_def by blast+
  from len d have "?r ! 0 \<noteq> ?r ! 1" by (simp add: distinct_conv_nth)
  moreover from len b have "?r ! 0 < np" "?r ! 1 < np" by simp_all
  ultimately show ?thesis using len by simp
qed

lemma mk_trial_v2_step:
  assumes "rng_contract R"
    and "length pop = population_size P" "2 \<le> population_size P"
    and "\<forall>q \<in> set pop. length (sol_x q) = dimension t"
    and "length xv = dimension t" "length (lower t) = dimension t"
      "length (upper t) = dimension t"
    and "choice_norep R (population_size P) 2 g = (r, g')"
  shows "mk_trial_v2 R P pop xv (p_b, p_f, t, g) =
           Inr (fst (keep_best (objective t) [v2_candidate P t pop xv r] (p_b, p_f)),
                snd (keep_best (objective t) [v2_candidate P t pop xv r] (p_b, p_f)),
                t\<lparr>evals := Suc (evals t)\<rparr>, g')"
proof -
  from norep_pair [OF assms(1) assms(3), of g] assms(8)
  have r: "length r = 2" "r ! 0 < population_size P" "r ! Suc 0 < population_size P" by simp_all
  have c: "rng_choice_norep R (population_size P) 2 g = Inr (r, g')"
    using assms(3,8) by (simp add: rng_choice_norep_def)
  have i0: "item_at r 0 = Inr (r ! 0)" and i1: "item_at r (Suc 0) = Inr (r ! Suc 0)"
    using r(1) by (simp_all add: item_at_def)
  have p0: "item_at pop (r ! 0) = Inr (pop ! (r ! 0))"
    and p1: "item_at pop (r ! Suc 0) = Inr (pop ! (r ! Suc 0))"
    using r(2,3) assms(2) by (simp_all add: item_at_def)
  have l0: "length (sol_x (pop ! (r ! 0))) = dimension t"
    and l1: "length (sol_x (pop ! (r ! Suc 0))) = dimension t"
    using r(2,3) assms(2,4) by simp_all
  let ?dx = "vsub (sol_x (pop ! (r ! 0))) (sol_x (pop ! (r ! Suc 0)))"
  have dx: "ew (-) (sol_x (pop ! (r ! 0))) (sol_x (pop ! (r ! Suc 0))) = Inr ?dx"
    using l0 l1 by (simp add: ew_same_length vsub_def)
  have ldx: "length ?dx = dimension t" using l0 l1 by (simp add: vsub_def)
  let ?y = "vsub xv (smul (fc P) ?dx)"
  have y: "move_mk_v2 P xv ?dx = Inr ?y"
    using ldx assms(5) by (simp add: move_mk_v2_def ew_same_length vsub_def smul_def)
  have ly: "length ?y = dimension t" using ldx assms(5) by (simp add: vsub_def smul_def)
  have rep: "task_repair t ?y = Inr (clip_vec t ?y)" using ly by (simp add: task_repair_def)
  have la: "length (clip_vec t ?y) = dimension t"
    using assms(6,7) ly by (rule length_clip_vec)
  have ev: "task_eval t (clip_vec t ?y)
              = Inr (objective t (clip_vec t ?y), t\<lparr>evals := Suc (evals t)\<rparr>)"
    using la by (simp add: task_eval_def)
  show ?thesis
    unfolding mk_trial_v2_def
    by (simp add: c i0 i1 p0 p1 dx y rep ev v2_candidate_def)
qed

lemma v2_draws_ok:
  assumes "rng_contract R" "2 \<le> np"
  shows "v2_draws R np n g = (rs, g') \<Longrightarrow>
           length rs = n
           \<and> (\<forall>r \<in> set rs. length r = 2 \<and> r ! 0 \<noteq> r ! 1 \<and> r ! 0 < np \<and> r ! 1 < np)"
proof (induction n arbitrary: g rs g')
  case 0
  then show ?case by simp
next
  case (Suc n)
  obtain r g1 where c: "choice_norep R np 2 g = (r, g1)" by (cases "choice_norep R np 2 g")
  obtain rs' g2 where d: "v2_draws R np n g1 = (rs', g2)" by (cases "v2_draws R np n g1")
  from Suc.prems c d have rs: "rs = r # rs'" by simp
  from norep_pair [OF assms, of g] c
  have "length r = 2 \<and> r ! 0 \<noteq> r ! 1 \<and> r ! 0 < np \<and> r ! 1 < np" by simp
  with Suc.IH [OF d] rs show ?case by simp
qed

lemma v2_candidate_evals [simp]:
  "v2_candidate P (t\<lparr>evals := k\<rparr>) = v2_candidate P t"
  by (simp add: fun_eq_iff v2_candidate_def clip_vec_def)

lemma v2_loop:
  assumes "rng_contract R"
    and "length pop = population_size P" "2 \<le> population_size P"
    and "length xv = dimension t" 
  shows "\<forall>q \<in> set pop. length (sol_x q) = dimension t \<Longrightarrow>
         length (lower t) = dimension t \<Longrightarrow> length (upper t) = dimension t \<Longrightarrow>
         v2_draws R (population_size P) n g = (rs, g') \<Longrightarrow>
         fold_err (\<lambda>_. mk_trial_v2 R P pop xv) (replicate n (0::nat)) (p_b, p_f, t, g) =
           Inr (fst (keep_best (objective t) (map (v2_candidate P t pop xv) rs) (p_b, p_f)),
                snd (keep_best (objective t) (map (v2_candidate P t pop xv) rs) (p_b, p_f)),
                t\<lparr>evals := evals t + n\<rparr>, g')"
  using assms(4)
proof (induction n arbitrary: p_b p_f t g rs g')
  case 0
  then show ?case by simp
next
  case (Suc n)
  obtain r g1 where c: "choice_norep R (population_size P) 2 g = (r, g1)"
    by (cases "choice_norep R (population_size P) 2 g")
  obtain rs' g2 where d: "v2_draws R (population_size P) n g1 = (rs', g2)"
    by (cases "v2_draws R (population_size P) n g1")
  from Suc.prems(4) c d have rs: "rs = r # rs'" and g': "g' = g2" by simp_all
  let ?t1 = "t\<lparr>evals := Suc (evals t)\<rparr>"
  let ?b1 = "keep_best (objective t) [v2_candidate P t pop xv r] (p_b, p_f)"
  have step: "mk_trial_v2 R P pop xv (p_b, p_f, t, g) = Inr (fst ?b1, snd ?b1, ?t1, g1)"
    using assms(1,2,3) Suc.prems(1) Suc.prems(5) Suc.prems(2,3) c by (rule mk_trial_v2_step)
  have ih: "fold_err (\<lambda>_. mk_trial_v2 R P pop xv) (replicate n (0::nat)) (fst ?b1, snd ?b1, ?t1, g1) =
           Inr (fst (keep_best (objective ?t1) (map (v2_candidate P ?t1 pop xv) rs') (fst ?b1, snd ?b1)),
                snd (keep_best (objective ?t1) (map (v2_candidate P ?t1 pop xv) rs') (fst ?b1, snd ?b1)),
                ?t1\<lparr>evals := evals ?t1 + n\<rparr>, g2)"
    using Suc.prems d by (intro Suc.IH) simp_all
  show ?case
    using step ih rs g' by simp
qed

text \<open>
  C5. Let \<open>c * population_size\<close> be the whole number \<open>n\<close>, the population hold
  \<open>population_size \<ge> 2\<close> individuals and the generator keep its promises. Then the
  Monkey King's move of version 2 makes exactly \<open>n\<close> trials (\<open>n\<close> evaluations). Each
  trial draws two different indices \<open>j\<close>, \<open>k\<close> into the population and evaluates the
  repaired candidate \<open>x - fc * (x\<^sub>j - x\<^sub>k)\<close>, \<open>x\<close> being the position the individual had
  before the move. The pair kept changes only for a strictly smaller fitness: the final
  fitness is the least among the old fitness and all candidates, so at most the old one;
  without a strictly better candidate position and fitness stay as they were; otherwise
  the final position is a candidate with that least fitness. (That the two indices are
  drawn uniformly is a matter of the generator, not of this code.)
\<close>

theorem move_monkey_king_particle_v2_spec:
  assumes "rng_contract R"
    and pop: "length pop = population_size P" "2 \<le> population_size P"
      "\<forall>q \<in> set pop. length (sol_x q) = dimension t"
    and shape: "length (sol_x p) = dimension t" "length (lower t) = dimension t"
      "length (upper t) = dimension t"
    and count: "c_param P * real (population_size P) = real n"
    and draws: "v2_draws R (population_size P) n g = (rs, g')"
  shows "\<exists>cands bx bf.
           length rs = n
         \<and> (\<forall>r \<in> set rs. length r = 2 \<and> r ! 0 \<noteq> r ! 1
                \<and> r ! 0 < length pop \<and> r ! 1 < length pop)
         \<and> cands = map (\<lambda>r. clip_vec t (vsub (sol_x p)
                       (smul (fc P) (vsub (sol_x (pop ! (r ! 0))) (sol_x (pop ! (r ! 1))))))) rs
         \<and> move_monkey_king_particle_v2 R P p pop t g =
             Inr (p\<lparr>monkey_king := False, sol_x := bx, sol_f := bf\<rparr>,
                  t\<lparr>evals := evals t + n\<rparr>, g')
         \<and> bf = Min (insert (sol_f p) (objective t ` set cands))
         \<and> bf \<le> sol_f p
         \<and> ((\<forall>a \<in> set cands. \<not> objective t a < sol_f p) \<longrightarrow> bx = sol_x p \<and> bf = sol_f p)
         \<and> ((\<exists>a \<in> set cands. objective t a < sol_f p) \<longrightarrow>
               bx \<in> set cands \<and> objective t bx = bf)"
proof -
  let ?cands = "map (v2_candidate P t pop (sol_x p)) rs"
  let ?b = "keep_best (objective t) ?cands (sol_x p, sol_f p)"
  have n: "nat (py_int (c_param P * real (population_size P))) = n"
    using count by (simp add: py_int_def)
  have "fold_err (\<lambda>_. mk_trial_v2 R P pop (sol_x p)) [0..<n] (sol_x p, sol_f p, t, g)
          = fold_err (\<lambda>_. mk_trial_v2 R P pop (sol_x p)) (replicate n (0::nat))
              (sol_x p, sol_f p, t, g)"
    by (rule fold_err_const) simp
  also have "\<dots> = Inr (fst ?b, snd ?b, t\<lparr>evals := evals t + n\<rparr>, g')"
    using assms(1) pop(1,2) shape(1) pop(3) shape(2,3) draws by (rule v2_loop)
  finally have res: "move_monkey_king_particle_v2 R P p pop t g =
      Inr (p\<lparr>monkey_king := False, sol_x := fst ?b, sol_f := snd ?b\<rparr>,
           t\<lparr>evals := evals t + n\<rparr>, g')"
    by (simp add: move_monkey_king_particle_v2_def n)
  have c: "?cands = map (\<lambda>r. clip_vec t (vsub (sol_x p)
                       (smul (fc P) (vsub (sol_x (pop ! (r ! 0))) (sol_x (pop ! (r ! 1))))))) rs"
    by (simp add: v2_candidate_def)
  have d: "length rs = n \<and> (\<forall>r \<in> set rs. length r = 2 \<and> r ! 0 \<noteq> r ! 1
                \<and> r ! 0 < length pop \<and> r ! 1 < length pop)"
    using v2_draws_ok [OF assms(1) pop(2) draws] pop(1) by simp
  have m: "snd ?b = Min (insert (sol_f p) (objective t ` set ?cands))"
    using keep_best_Min [of "objective t" ?cands "(sol_x p, sol_f p)"] by simp
  then have le: "snd ?b \<le> sol_f p" by simp
  have u: "(\<forall>a \<in> set ?cands. \<not> objective t a < sol_f p) \<longrightarrow>
             fst ?b = sol_x p \<and> snd ?b = sol_f p"
    using keep_best_unchanged [of ?cands "objective t" "(sol_x p, sol_f p)"] by simp
  have i: "(\<exists>a \<in> set ?cands. objective t a < sol_f p) \<longrightarrow>
             fst ?b \<in> set ?cands \<and> objective t (fst ?b) = snd ?b"
    using keep_best_improved [of ?cands "objective t" "(sol_x p, sol_f p)"] by simp
  from d c res m le u i show ?thesis by blast
qed

lemma tape_v2_draws:
  "v2_draws tape_rng 2 2 [1, 0, 0, 0] = ([[1, 0], [0, 1]], [])"
proof -
  have c1: "choice_norep tape_rng 2 2 [Suc 0, 0, 0, 0] = ([Suc 0, 0], [0, 0])"
    by (simp add: tape_rng_def tape_take_def eval_nat_numeral upt_conv_Cons)
  have c2: "choice_norep tape_rng 2 2 [0, 0] = ([0, Suc 0], [])"
    by (simp add: tape_rng_def tape_take_def eval_nat_numeral upt_conv_Cons)
  have "v2_draws tape_rng 2 (Suc (Suc 0)) [Suc 0, 0, 0, 0] = ([[Suc 0, 0], [0, Suc 0]], [])"
    by (simp add: c1 c2)
  then show ?thesis by (simp add: eval_nat_numeral)
qed

theorem move_monkey_king_particle_v2_spec_witness:
  "move_monkey_king_particle_v2 tape_rng
     \<lparr>population_size = 2, fluctuation_coeff = 7 / 10, population_rate = 1 / 2, c_param = 1,
        fc = 1 / 2\<rparr>
     \<lparr>sol_x = [10], sol_f = 100, x_pb = [10], f_pb = 100, monkey_king = True\<rparr>
     [\<lparr>sol_x = [10], sol_f = 100, x_pb = [10], f_pb = 100, monkey_king = True\<rparr>,
      \<lparr>sol_x = [4], sol_f = 16, x_pb = [4], f_pb = 16, monkey_king = False\<rparr>]
     (sphere_task 1 None) [1, 0, 0, 0]
   = Inr (\<lparr>sol_x = [7], sol_f = 49, x_pb = [10], f_pb = 100, monkey_king = False\<rparr>,
          (sphere_task 1 None)\<lparr>evals := 2\<rparr>, [])"
proof -
  let ?P = "\<lparr>population_size = 2, fluctuation_coeff = 7 / 10, population_rate = 1 / 2,
              c_param = 1, fc = 1 / 2\<rparr>"
  let ?p = "\<lparr>sol_x = [10], sol_f = 100, x_pb = [10], f_pb = 100, monkey_king = True\<rparr>"
  let ?q = "\<lparr>sol_x = [4], sol_f = 16, x_pb = [4], f_pb = 16, monkey_king = False\<rparr>"
  let ?t = "sphere_task 1 None"
  have h1: "length [?p, ?q] = population_size ?P" by simp
  have h2: "2 \<le> population_size ?P" by simp
  have h3: "\<forall>q \<in> set [?p, ?q]. length (sol_x q) = dimension ?t" by (simp add: sphere_task_def)
  have h4: "length (sol_x ?p) = dimension ?t" by (simp add: sphere_task_def)
  have h5: "length (lower ?t) = dimension ?t" by (simp add: sphere_task_def)
  have h6: "length (upper ?t) = dimension ?t" by (simp add: sphere_task_def)
  have h7: "c_param ?P * real (population_size ?P) = real 2" by simp
  have h8: "v2_draws tape_rng (population_size ?P) 2 [1, 0, 0, 0] = ([[1, 0], [0, 1]], [])"
    using tape_v2_draws by simp
  from move_monkey_king_particle_v2_spec [OF tape_rng_contract h1 h2 h3 h4 h5 h6 h7 h8]
  obtain cands bx bf where
    c: "cands = map (\<lambda>r. clip_vec ?t (vsub (sol_x ?p)
          (smul (fc ?P) (vsub (sol_x ([?p, ?q] ! (r ! 0))) (sol_x ([?p, ?q] ! (r ! 1)))))))
          [[1, 0], [0, 1]]"
    and res: "move_monkey_king_particle_v2 tape_rng ?P ?p [?p, ?q] ?t [1, 0, 0, 0] =
             Inr (?p\<lparr>monkey_king := False, sol_x := bx, sol_f := bf\<rparr>,
                  ?t\<lparr>evals := evals ?t + 2\<rparr>, [])"
    and bf: "bf = Min (insert (sol_f ?p) (objective ?t ` set cands))"
    and imp: "(\<exists>a \<in> set cands. objective ?t a < sol_f ?p) \<longrightarrow>
               bx \<in> set cands \<and> objective ?t bx = bf"
    by blast
  have c': "cands = [[13], [7]]"
    by (simp add: c clip_vec_def clip_def vsub_def smul_def sphere_task_def)
  have o: "\<And>d b. objective (sphere_task d b) = sphere" by (simp add: sphere_task_def)
  have f0: "sphere [13] = 169" and f1: "sphere [7] = 49"
    by (simp_all add: sphere_def)
  have bf': "bf = 49" by (simp add: bf c' o f0 f1)
  have "bx \<in> set cands \<and> objective ?t bx = bf"
    using imp c' f1 by (simp add: o)
  then have "bx = [7]" using c' f0 bf' by (auto simp: o)
  with res bf' show ?thesis by (simp add: sphere_task_def)
qed

subsection \<open>Versions 1 and 2: the Monkey King flags\<close>

lemma monkey_king_update_personal_best [simp]:
  "monkey_king (update_personal_best p) = monkey_king p"
  by (simp add: update_personal_best_def)


















subsection \<open>Version 3: the candidate batch\<close>

text \<open>
  What the first statement of \<^verbatim>\<open>run_iteration\<close> builds, for any population, best position
  and draws of fitting shapes: row by row \<open>(best_x + fc * population[i]) - population[j]\<close>.
\<close>

lemma v3_candidates_rows:
  assumes "0 \<le> c" and "population \<noteq> []"
    and "choice R (length population) (nat c) g = (ia, g1)"
    and "choice R (length population) (nat c) g1 = (ib, g2)"
    and "length ia = length ib"
    and "\<forall>i \<in> set ia. i < length population" and "\<forall>i \<in> set ib. i < length population"
    and "\<forall>row \<in> set population. length row = length best_x"
  shows "v3_candidates R P population best_x c g =
           Inr (map2 (\<lambda>i j. vsub (vadd best_x (smul (fc P) (population ! i))) (population ! j))
                  ia ib, g2)"
proof -
  have c1: "rng_choice R (length population) c g = Inr (ia, g1)"
    using assms(1,2,3) by (simp add: rng_choice_def)
  have c2: "rng_choice R (length population) c g1 = Inr (ib, g2)"
    using assms(1,2,4) by (simp add: rng_choice_def)
  have A: "map_err (item_at population) ia = Inr (map ((!) population) ia)"
    using assms(6) by (intro map_err_all_Inr) (simp add: item_at_def)
  have B: "map_err (item_at population) ib = Inr (map ((!) population) ib)"
    using assms(7) by (intro map_err_all_Inr) (simp add: item_at_def)
  have S: "map_err (\<lambda>a. ew (+) best_x (smul (fc P) a)) (map ((!) population) ia)
             = Inr (map (\<lambda>a. vadd best_x (smul (fc P) a)) (map ((!) population) ia))"
    using assms(6,8) by (intro map_err_all_Inr) (auto simp: ew_same_length smul_def vadd_def)
  let ?S = "map (\<lambda>a. vadd best_x (smul (fc P) a)) (map ((!) population) ia)"
  let ?B = "map ((!) population) ib"
  have "map_err (\<lambda>(a, b). ew (-) a b) (zip ?S ?B) = Inr (map (\<lambda>(a, b). vsub a b) (zip ?S ?B))"
  proof (rule map_err_all_Inr)
    fix ab assume ab: "ab \<in> set (zip ?S ?B)"
    obtain a b where e: "ab = (a, b)" by (cases ab)
    with ab have "a \<in> set ?S" "b \<in> set ?B" by (auto dest: set_zip_leftD set_zip_rightD)
    then have "length a = length best_x" "length b = length best_x"
      using assms(6,7,8) by (auto simp: vadd_def smul_def)
    with e show "(case ab of (a, b) \<Rightarrow> ew (-) a b) = Inr (case ab of (a, b) \<Rightarrow> vsub a b)"
      by (simp add: ew_same_length vsub_def)
  qed
  then have X: "mat_ew (-) ?S ?B = Inr (map (\<lambda>(a, b). vsub a b) (zip ?S ?B))"
    using assms(5) by (simp add: mat_ew_def)
  have "map (\<lambda>(a, b). vsub a b) (zip ?S ?B)
          = map2 (\<lambda>i j. vsub (vadd best_x (smul (fc P) (population ! i))) (population ! j)) ia ib"
    by (simp add: zip_map_map split_def)
  with X show ?thesis
    by (simp add: v3_candidates_def c1 c2 A B S del: map_map)
qed

text \<open>
  C1. The spec has the candidate batch of the first step of version 3 be
  \<open>global_best + fc * (rows_a - rows_b)\<close>, with \<open>fc\<close> scaling the whole difference of the
  two samples of \<open>c\<close> rows. The statement of \<^verbatim>\<open>run_iteration\<close> has no parentheses
  around the difference, so \<open>fc\<close> scales the first sample only and the second sample is
  subtracted unscaled. With the population \<open>[[2, 2], [6, 6]]\<close>, the best
  position \<open>[2, 2]\<close>, \<open>fc = 1/2\<close>, one pair to draw and the draws 0 and 1, the code
  builds the candidate \<open>[2, 2] + [1, 1] - [6, 6] = [-3, -3]\<close>; the spec's formula gives
  \<open>[2, 2] + 1/2 * ([2, 2] - [6, 6]) = [0, 0]\<close>. The whole iteration on the sphere
  function then keeps the best fitness 8, where the spec's candidate \<open>[0, 0]\<close> would have
  brought it to 0.
\<close>

theorem v3_candidates_scale_first_sample_only:
  "v3_candidates tape_rng
     \<lparr>population_size = 2, fluctuation_coeff = 7 / 10, population_rate = 3 / 10,
        c_param = 1 / 2, fc = 1 / 2\<rparr>
     [[2, 2], [6, 6]] [2, 2] 1 [0, 1, 1, 0]
   = Inr ([[-3, -3]], [1, 0])
   \<and> vadd [2, 2] (smul (1 / 2) (vsub [2, 2] [6, 6])) = [0, 0]
   \<and> run_iteration_v3 tape_rng
     \<lparr>population_size = 2, fluctuation_coeff = 7 / 10, population_rate = 3 / 10,
        c_param = 1 / 2, fc = 1 / 2\<rparr>
     (sphere_task 2 None) [[2, 2], [6, 6]] [8, 72] [2, 2] 8 1 1 [0, 1, 1, 0]
   = Inr ([[2, 2], [-3, -3]], [8, 18], [2, 2], 8, 1, 1, (sphere_task 2 None)\<lparr>evals := 3\<rparr>, [])"
proof -
  have a: "v3_candidates tape_rng
     \<lparr>population_size = 2, fluctuation_coeff = 7 / 10, population_rate = 3 / 10,
        c_param = 1 / 2, fc = 1 / 2\<rparr>
     [[2, 2], [6, 6]] [2, 2] 1 [0, Suc 0, Suc 0, 0]
   = Inr ([[-3, -3]], [Suc 0, 0])"
    by (simp add: v3_candidates_def mat_ew_def example_defs)
  have b: "vadd [2, 2] (smul (1 / 2) (vsub [2, 2] [6, 6])) = [0, 0]"
    by (simp add: vadd_def vsub_def smul_def)
  have c: "run_iteration_v3 tape_rng
     \<lparr>population_size = 2, fluctuation_coeff = 7 / 10, population_rate = 3 / 10,
        c_param = 1 / 2, fc = 1 / 2\<rparr>
     (sphere_task 2 None) [[2, 2], [6, 6]] [8, 72] [2, 2] 8 1 1 [0, Suc 0, Suc 0, 0]
   = Inr ([[2, 2], [-3, -3]], [8, 18], [2, 2], 8, 1, 1, (sphere_task 2 None)\<lparr>evals := 3\<rparr>, [])"
    by (simp add: run_iteration_v3_def v3_candidates_def mat_ew_def mask_def tril_block_def
      tril_def shuffle_row_def recombine_def neg_def get_best_def inject_best_def argmax_def
      example_defs upt_0_2 replicate_2)
  from a b c show ?thesis by simp
qed

subsection \<open>Version 3: the injection of the best candidate\<close>

lemma set_update_Max:
  assumes "iw < length fs" "v \<le> fs ! iw"
  shows "Max (set (fs[iw := v])) \<le> Max (set fs)"
proof -
  from assms(1) have ne: "fs \<noteq> []" by auto
  have "\<forall>u \<in> set (fs[iw := v]). u \<le> Max (set fs)"
  proof
    fix u assume "u \<in> set (fs[iw := v])"
    then have "u = v \<or> u \<in> set fs"
      using set_update_subset_insert [of fs iw v] by auto
    moreover have "fs ! iw \<le> Max (set fs)" using assms(1) by simp
    ultimately show "u \<le> Max (set fs)" using assms(2) by auto
  qed
  moreover have "fs[iw := v] \<noteq> []" using ne by simp
  ultimately show ?thesis by simp
qed

text \<open>
  C3. With \<open>iw\<close> the index of the greatest population fitness and \<open>ib\<close> the index of
  the least fitness of the candidate batch, the last step of version 3 writes candidate
  row \<open>ib\<close> and its fitness over row \<open>iw\<close> of the population exactly when that candidate
  fitness is at most the greatest population fitness (a tie replaces), and changes nothing
  otherwise. Either way the greatest fitness of the population afterwards is at most the
  greatest fitness before.
\<close>

theorem inject_best_spec:
  assumes "population_fitness \<noteq> []" and "x_gb_f \<noteq> []"
    and "length population = length population_fitness"
    and "length x_gb = length x_gb_f"
  shows "\<exists>iw ib pop' pf'.
           argmax population_fitness = Inr iw \<and> argmin x_gb_f = Inr ib
         \<and> iw < length population \<and> ib < length x_gb
         \<and> population_fitness ! iw = Max (set population_fitness)
         \<and> x_gb_f ! ib = Min (set x_gb_f)
         \<and> inject_best population population_fitness x_gb x_gb_f = Inr (pop', pf')
         \<and> (x_gb_f ! ib \<le> population_fitness ! iw \<longrightarrow>
               pop' = population[iw := x_gb ! ib]
             \<and> pf' = population_fitness[iw := x_gb_f ! ib])
         \<and> (\<not> x_gb_f ! ib \<le> population_fitness ! iw \<longrightarrow>
               pop' = population \<and> pf' = population_fitness)
         \<and> Max (set pf') \<le> Max (set population_fitness)"
proof -
  let ?iw = "argmax_list population_fitness" and ?ib = "argmin_list x_gb_f"
  have iw: "?iw < length population_fitness" using assms(1) by (rule argmax_list_less)
  have ib: "?ib < length x_gb_f" using assms(2) by (rule argmin_list_less)
  have a1: "argmax population_fitness = Inr ?iw" using assms(1) by (simp add: argmax_def)
  have a2: "argmin x_gb_f = Inr ?ib" using assms(2) by (simp add: argmin_def)
  show ?thesis
  proof (cases "x_gb_f ! ?ib \<le> population_fitness ! ?iw")
    case True
    then have "inject_best population population_fitness x_gb x_gb_f =
                 Inr (population[?iw := x_gb ! ?ib], population_fitness[?iw := x_gb_f ! ?ib])"
      using iw ib assms(3,4) by (simp add: inject_best_def a1 a2 bind_err_def item_at_def)
    moreover have "Max (set (population_fitness[?iw := x_gb_f ! ?ib]))
                     \<le> Max (set population_fitness)"
      using iw True by (rule set_update_Max)
    ultimately show ?thesis
      using a1 a2 iw ib assms True nth_argmax_Max [OF assms(1)] nth_argmin_Min [OF assms(2)]
      by auto
  next
    case False
    then have "inject_best population population_fitness x_gb x_gb_f =
                 Inr (population, population_fitness)"
      by (simp add: inject_best_def a1 a2 bind_err_def)
    then show ?thesis
      using a1 a2 iw ib assms False nth_argmax_Max [OF assms(1)] nth_argmin_Min [OF assms(2)]
      by auto
  qed
qed

theorem inject_best_spec_witness:
  "inject_best [[1, 1], [4, 4], [2, 2]] [2, 32, 8] [[3, 3], [0, 1]] [18, 1]
     = Inr ([[1, 1], [0, 1], [2, 2]], [2, 1, 8])
   \<and> inject_best [[1, 1], [2, 2]] [2, 8] [[3, 3]] [8] = Inr ([[1, 1], [3, 3]], [2, 8])
   \<and> inject_best [[1, 1], [2, 2]] [2, 8] [[3, 3]] [18] = Inr ([[1, 1], [2, 2]], [2, 8])"
  using inject_best_spec [of "[2, 32, 8]" "[18, 1]" "[[1, 1], [4, 4], [2, 2]]" "[[3, 3], [0, 1]]"]
    inject_best_spec [of "[2, 8]" "[8]" "[[1, 1], [2, 2]]" "[[3, 3]]"]
    inject_best_spec [of "[2, 8]" "[18]" "[[1, 1], [2, 2]]" "[[3, 3]]"]
  by (simp add: inject_best_def argmax_def argmin_def bind_err_def item_at_def)

text \<open>
  Where the step sits: what an iteration of version 3 returns as population and fitness
  is this injection, applied to the evolved population and the candidate batch with their
  fitness, both non-empty.
\<close>

lemma run_iteration_v3_injects:
  assumes "run_iteration_v3 R P t population population_fitness best_x best_fitness k c g
     = Inr (pop'', fpop'', bx, bf, k', c', t', g')"
  shows "\<exists>pop' fpop' x_gb x_gb_f.
           fpop' \<noteq> [] \<and> x_gb_f \<noteq> [] \<and> length pop' = length fpop'
         \<and> length x_gb = length x_gb_f
         \<and> inject_best pop' fpop' x_gb x_gb_f = Inr (pop'', fpop'')"
proof -
  from assms obtain x_gb x_gb_f t1 pop' fpop' t2 where
    e1: "apply_eval t x_gb = Inr (x_gb_f, t1)"
    and e2: "apply_eval t1 pop' = Inr (fpop', t2)"
    and i: "inject_best pop' fpop' x_gb x_gb_f = Inr (pop'', fpop'')"
    unfolding run_iteration_v3_def by (auto simp: bind_err_eq_Inr)
  from apply_eval_length [OF e1] have 1: "x_gb_f \<noteq> []" "length x_gb = length x_gb_f"
    by auto
  from apply_eval_length [OF e2] have 2: "fpop' \<noteq> []" "length pop' = length fpop'"
    by auto
  from 1 2 i show ?thesis by blast
qed

subsection \<open>The tracked best and the generators of a run\<close>

lemma get_best_not_worse:
  "get_best X X_f best_x best_fitness = Inr (bx, bf) \<Longrightarrow> bf \<le> best_fitness"
  by (auto simp: get_best_def bind_err_eq_Inr split: if_splits)

lemma run_iteration_best_not_worse:
  "run_iteration V R P t population population_fitness best_x best_fitness g
     = Inr (pop', fpop', bx, bf, t', g') \<Longrightarrow> bf \<le> best_fitness"
  by (auto simp: run_iteration_def bind_err_eq_Inr Let_def dest: get_best_not_worse)

lemma run_iteration_v3_best_not_worse:
  assumes "run_iteration_v3 R P t population population_fitness best_x best_fitness k c g
     = Inr (pop', fpop', bx, bf, k', c', t', g')"
  shows "bf \<le> best_fitness"
proof -
  from assms obtain X X_f b1 f1 Y Y_f where
    g1: "get_best X X_f best_x best_fitness = Inr (b1, f1)"
    and g2: "get_best Y Y_f b1 f1 = Inr (bx, bf)"
    unfolding run_iteration_v3_def by (auto simp: bind_err_eq_Inr)
  from get_best_not_worse [OF g1] get_best_not_worse [OF g2] show ?thesis by simp
qed

text \<open>
  C2. The spec has the tracked global-best fitness never increase from one iteration to
  the next, in any version, and change only by comparison with freshly evaluated
  candidates. In the current module the best fitness is handed to \<^verbatim>\<open>run_iteration\<close> and back
  as a number, and the two lemmas above show that an iteration of any of the three
  versions returns a best fitness no greater than the one it was given. In the older
  module \<^verbatim>\<open>runTask\<close> of version 1 tracks the best as \<^verbatim>\<open>p_b\<close>, one of the objects of
  the population, and \<^verbatim>\<open>movePopulation\<close> moves that object like any other. On the sphere
  function in one dimension with a single individual that is also the Monkey King
  (\<open>NP = 1\<close>, \<open>R = 1\<close>, \<open>C = 1\<close>, \<open>FC = 1/2\<close>, a budget of 2 evaluations): the individual
  is created at 40 with fitness 1600 and is the tracked best; the first pass of the loop
  replaces it by its only offspring, \<open>40 + 1/2 * 1/2 * 40 = 50\<close> with fitness 2500, with
  no comparison; the tracked best fitness has gone from 1600 to 2500 and the run returns
  \<open>([50], 2500)\<close>.
\<close>

theorem old_runTask_best_gets_worse:
  "runTask_init tape_rng
     \<lparr>population_size = 1, fluctuation_coeff = 7 / 10, population_rate = 1, c_param = 1,
        fc = 1 / 2\<rparr>
     (sphere_task 1 (Some 2)) [0, 5, 0] [7]
   = Inr ([\<lparr>old_x = [40], old_f = 1600, old_x_pb = [40], old_f_pb = None, MonkeyKing = True,
             x_pb_is_x = True\<rparr>], 0, (sphere_task 1 (Some 2))\<lparr>evals := 1\<rparr>, [5, 0], [])
   \<and> tracked_best
       ([\<lparr>old_x = [40], old_f = 1600, old_x_pb = [40], old_f_pb = None, MonkeyKing = True,
             x_pb_is_x = True\<rparr>], 0, (sphere_task 1 (Some 2))\<lparr>evals := 1\<rparr>, [5, 0], [])
     = ([40], 1600)
   \<and> runTask_body tape_rng
     \<lparr>population_size = 1, fluctuation_coeff = 7 / 10, population_rate = 1, c_param = 1,
        fc = 1 / 2\<rparr>
     ([\<lparr>old_x = [40], old_f = 1600, old_x_pb = [40], old_f_pb = None, MonkeyKing = True,
             x_pb_is_x = True\<rparr>], 0, (sphere_task 1 (Some 2))\<lparr>evals := 1\<rparr>, [5, 0], [])
   = Inr ([\<lparr>old_x = [50], old_f = 2500, old_x_pb = [50], old_f_pb = Some 2500,
             MonkeyKing = True, x_pb_is_x = True\<rparr>], 0,
          (sphere_task 1 (Some 2))\<lparr>evals := 2\<rparr>, [], [])
   \<and> tracked_best
       ([\<lparr>old_x = [50], old_f = 2500, old_x_pb = [50], old_f_pb = Some 2500,
             MonkeyKing = True, x_pb_is_x = True\<rparr>], 0,
          (sphere_task 1 (Some 2))\<lparr>evals := 2\<rparr>, [], [])
     = ([50], 2500)
   \<and> runTask tape_rng
     \<lparr>population_size = 1, fluctuation_coeff = 7 / 10, population_rate = 1, c_param = 1,
        fc = 1 / 2\<rparr>
     (sphere_task 1 (Some 2)) [0, 5, 0] [7]
   = Some (Inr ([50], 2500))"
proof -
  let ?P = "\<lparr>population_size = Suc 0, fluctuation_coeff = 7 / 10, population_rate = 1,
              c_param = 1, fc = 1 / 2\<rparr>"
  let ?t = "sphere_task (Suc 0) (Some 2)"
  let ?s0 = "([\<lparr>old_x = [40], old_f = 1600, old_x_pb = [40], old_f_pb = None,
                 MonkeyKing = True, x_pb_is_x = True\<rparr>], 0::nat, ?t\<lparr>evals := Suc 0\<rparr>,
              [5, 0::nat], []::nat list)"
  let ?s1 = "([\<lparr>old_x = [50], old_f = 2500, old_x_pb = [50], old_f_pb = Some 2500,
                 MonkeyKing = True, x_pb_is_x = True\<rparr>], 0::nat, ?t\<lparr>evals := 2\<rparr>,
              []::nat list, []::nat list)"
  have i: "runTask_init tape_rng ?P ?t [0, 5, 0] [7] = Inr ?s0"
    by (simp add: old_defs example_defs)
  have b: "runTask_body tape_rng ?P ?s0 = Inr ?s1"
    by (simp add: old_defs example_defs)
  have go: "\<not> stopping_condition (?t\<lparr>evals := Suc 0\<rparr>)"
    and stop: "stopping_condition (?t\<lparr>evals := 2\<rparr>)"
    by (simp_all add: stopping_condition_def sphere_task_def)
  have l1: "runTask_loop tape_rng ?P ?s1 = Some (Inr ?s1)"
    by (subst runTask_loop.simps) (simp add: stop)
  have l0: "runTask_loop tape_rng ?P ?s0 = Some (Inr ?s1)"
    by (subst runTask_loop.simps) (simp add: go b l1)
  have r: "runTask tape_rng ?P ?t [0, 5, 0] [7] = Some (Inr ([50], 2500))"
    by (simp add: runTask_def i l0 tracked_best_def)
  from i b r show ?thesis by (simp add: tracked_best_def)
qed

text \<open>
  C9. The spec has a run be a function of task, configuration and seed: two runs that
  agree in these agree in every population, every fitness and the returned best. Every
  function of the model returns one result for one argument, so two runs that start from
  the same task, parameters and generator states agree in every step; for the current
  module, whose draws all come from the algorithm's own generator, that is the property.
  In the older module \<^verbatim>\<open>runTask\<close> of versions 1 and 2 builds the initial
  population with \<^verbatim>\<open>MkeSolution(task=task)\<close>, which draws from the module
  \<^verbatim>\<open>numpy.random\<close>, not from the seeded \<^verbatim>\<open>self.rand\<close>. Two runs with the same task,
  the same parameters and the same state of \<^verbatim>\<open>self.rand\<close> (the same seed) therefore
  differ as soon as the state of \<^verbatim>\<open>numpy.random\<close> differs, as it does between two
  runs in one process: with the draw 0.7 the run below returns \<open>([40], 1600)\<close>, with the
  draw 0.2 it returns \<open>([-60], 3600)\<close>.
\<close>

theorem old_runTask_depends_on_global_generator:
  "runTask tape_rng
     \<lparr>population_size = 1, fluctuation_coeff = 7 / 10, population_rate = 1, c_param = 1,
        fc = 1 / 2\<rparr>
     (sphere_task 1 (Some 1)) [0, 5, 0] [7]
   = Some (Inr ([40], 1600))
   \<and> runTask tape_rng
     \<lparr>population_size = 1, fluctuation_coeff = 7 / 10, population_rate = 1, c_param = 1,
        fc = 1 / 2\<rparr>
     (sphere_task 1 (Some 1)) [0, 5, 0] [2]
   = Some (Inr ([-60], 3600))"
proof -
  let ?P = "\<lparr>population_size = Suc 0, fluctuation_coeff = 7 / 10, population_rate = 1,
              c_param = 1, fc = 1 / 2\<rparr>"
  let ?t = "sphere_task (Suc 0) (Some (Suc 0))"
  let ?s = "\<lambda>v w. ([\<lparr>old_x = [v], old_f = w, old_x_pb = [v], old_f_pb = None,
                 MonkeyKing = True, x_pb_is_x = True\<rparr>], 0::nat, ?t\<lparr>evals := Suc 0\<rparr>,
              [5, 0::nat], []::nat list)"
  have i1: "runTask_init tape_rng ?P ?t [0, 5, 0] [7] = Inr (?s 40 1600)"
    by (simp add: old_defs example_defs)
  have i2: "runTask_init tape_rng ?P ?t [0, 5, 0] [2] = Inr (?s (- 60) 3600)"
    by (simp add: old_defs example_defs)
  have stop: "stopping_condition (?t\<lparr>evals := Suc 0\<rparr>)"
    by (simp add: stopping_condition_def sphere_task_def)
  have l: "\<And>v w. runTask_loop tape_rng ?P (?s v w) = Some (Inr (?s v w))"
    by (subst runTask_loop.simps) (simp add: stop)
  have r1: "runTask tape_rng ?P ?t [0, 5, 0] [7] = Some (Inr ([40], 1600))"
    by (simp add: runTask_def i1 l tracked_best_def)
  have r2: "runTask tape_rng ?P ?t [0, 5, 0] [2] = Some (Inr ([- 60], 3600))"
    by (simp add: runTask_def i2 l tracked_best_def)
  from r1 r2 show ?thesis by simp
qed

end
